theory Spec2Isabelle
  imports Main
begin

section \<open>Python strings\<close>

text \<open>
  A Python \<open>str\<close> is modelled as a \<open>string\<close>, each \<open>char\<close> standing for the code point
  of the same number (0 to 255); \<open>None\<close> is the \<open>None\<close> of an option type. The scanner's
  output is ASCII, so nothing that the program reads is lost. The character classes are those
  of \<open>str.isspace\<close> (also used by \<open>str.strip\<close> and by \<open>\s\<close> in a \<open>str\<close> pattern) and of
  \<open>\d\<close> on these code points.
\<close>

definition is_space :: "char \<Rightarrow> bool" where
  "is_space c = (c \<in> set [CHR 0x09, CHR 0x0A, CHR 0x0B, CHR 0x0C, CHR 0x0D,
                           CHR 0x1C, CHR 0x1D, CHR 0x1E, CHR 0x1F, CHR 0x20,
                           CHR 0x85, CHR 0xA0])"

definition is_digit :: "char \<Rightarrow> bool" where
  "is_digit c = (c \<in> set ''0123456789'')"

text \<open>\<open>s.strip()\<close>: whitespace removed at both ends.\<close>

definition strip :: "string \<Rightarrow> string" where
  "strip s = rev (dropWhile is_space (rev (dropWhile is_space s)))"

text \<open>\<open>s.lower()\<close>: on code points below 256 the letters A-Z and the capital letters
  0xC0-0xDE (the multiplication sign 0xD7 apart) move up by 32.\<close>

definition lower_char :: "char \<Rightarrow> char" where
  "lower_char c =
     (let n = (of_char c :: nat)
      in if (65 \<le> n \<and> n \<le> 90) \<or> (192 \<le> n \<and> n \<le> 222 \<and> n \<noteq> 215)
         then char_of (n + 32) else c)"

definition lower :: "string \<Rightarrow> string" where
  "lower s = map lower_char s"

text \<open>\<open>s.startswith(p)\<close>.\<close>

definition startswith :: "string \<Rightarrow> string \<Rightarrow> bool" where
  "startswith s p = (take (length p) s = p)"

text \<open>\<open>sub in s\<close>: the substring test.\<close>

fun contains :: "string \<Rightarrow> string \<Rightarrow> bool" where
  "contains [] sub = (sub = [])"
| "contains (c # cs) sub = (startswith (c # cs) sub \<or> contains cs sub)"

text \<open>\<open>sep.join(xs)\<close>.\<close>

fun join :: "string \<Rightarrow> string list \<Rightarrow> string" where
  "join sep [] = []"
| "join sep [x] = x"
| "join sep (x # y # ys) = x @ sep @ join sep (y # ys)"

text \<open>\<open>str(n)\<close> of a natural number: its decimal digits.\<close>

function str_nat :: "nat \<Rightarrow> string" where
  "str_nat n = (if n < 10 then [char_of (48 + n)]
                else str_nat (n div 10) @ [char_of (48 + n mod 10)])"
  by pat_completeness auto
termination
  by (relation "measure (\<lambda>n. n)") auto

declare str_nat.simps [simp del]

text \<open>The truth value of an optional string (\<open>None\<close> and \<open>""\<close> are false) and \<open>str(x)\<close>.\<close>

definition truthy :: "string option \<Rightarrow> bool" where
  "truthy x = (case x of None \<Rightarrow> False | Some s \<Rightarrow> s \<noteq> [])"

definition py_str :: "string option \<Rightarrow> string" where
  "py_str x = (case x of None \<Rightarrow> ''None'' | Some s \<Rightarrow> s)"

section \<open>The scan-result validator\<close>

text \<open>
  \<open>re.findall(r'(\d+)/tcp\s+open', s)\<close>. A match that starts at the head of \<open>s\<close> is a
  non-empty run of digits, the text \<open>/tcp\<close>, a non-empty run of whitespace and the text
  \<open>open\<close>. The character after each run (\<open>/\<close>, \<open>o\<close>) is not in the run's class, so the
  greedy runs are the maximal ones and giving characters back never helps:
  \<open>match_here\<close> returns group 1 and the text after the match
  (the lemmas \<open>match_here_decomp\<close> and \<open>match_here_sound\<close> below state this against the
  pattern's language).
  \<open>findall\<close> scans from the left, resumes after each match and moves on by one
  character where there is none.
\<close>

definition match_here :: "string \<Rightarrow> (string \<times> string) option" where
  "match_here s =
     (let ds = takeWhile is_digit s; r1 = dropWhile is_digit s
      in if ds = [] then None
         else if \<not> startswith r1 ''/tcp'' then None
         else let r2 = drop 4 r1; ws = takeWhile is_space r2; r3 = dropWhile is_space r2
              in if ws = [] then None
                 else if \<not> startswith r3 ''open'' then None
                 else Some (ds, drop 4 r3))"

lemma match_here_shorter: "match_here s = Some (p, r) \<Longrightarrow> length r < length s"
proof -
  assume m: "match_here s = Some (p, r)"
  let ?r1 = "dropWhile is_digit s"
  let ?r3 = "dropWhile is_space (drop 4 ?r1)"
  from m have ne: "takeWhile is_digit s \<noteq> []" and r: "r = drop 4 ?r3"
    by (auto simp: match_here_def Let_def split: if_splits)
  have "length r \<le> length ?r3" using r by simp
  also have "\<dots> \<le> length (drop 4 ?r1)" by (rule length_dropWhile_le)
  also have "\<dots> \<le> length ?r1" by simp
  also have "\<dots> < length s"
  proof -
    have "length (takeWhile is_digit s) + length ?r1 = length s"
      by (metis length_append takeWhile_dropWhile_id)
    moreover have "0 < length (takeWhile is_digit s)" using ne by simp
    ultimately show ?thesis by linarith
  qed
  finally show ?thesis .
qed

function findall :: "string \<Rightarrow> string list" where
  "findall [] = []"
| "findall (c # cs) =
     (case match_here (c # cs) of
        Some (p, r) \<Rightarrow> p # findall r
      | None \<Rightarrow> findall cs)"
  by pat_completeness auto
termination
  by (relation "measure length") (auto dest: match_here_shorter)

text \<open>\<open>check_scan_results(scan_output)\<close>: the pair (is valid, message).\<close>

definition check_scan_results :: "string option \<Rightarrow> bool \<times> string" where
  "check_scan_results scan_output =
     (case scan_output of
        None \<Rightarrow> (False, ''Scan produced no output'')
      | Some s \<Rightarrow>
          if s = [] \<or> length (strip s) < 50 then (False, ''Scan produced no output'')
          else if contains s ''Host seems down'' \<or> contains s ''0 hosts up''
            then (False, ''Host appears down (try -Pn flag)'')
          else let open_ports = findall s
               in if open_ports = [] then
                    (if contains (lower s) ''filtered'' \<or> contains (lower s) ''closed''
                     then (False, ''No open ports found (all ports closed/filtered)'')
                     else (False, ''No ports detected in scan output''))
                  else (True, ''Found '' @ str_nat (length open_ports)
                                @ '' open port(s): '' @ join '', '' open_ports))"

text \<open>
  The pattern in the spec's words, to compare \<open>findall\<close> with: a numeric port followed by
  \<open>/tcp\<close> and the state \<open>open\<close> (with whitespace between them, as the regular expression
  has it). \<open>port_matches s ports\<close> holds when \<open>ports\<close> are the ports of the matches in
  \<open>s\<close>, read from the left: a match at the head is taken and the reading resumes after it;
  where no match starts at the head, one character is passed over.
\<close>

definition port_pattern :: "string \<Rightarrow> string \<Rightarrow> string \<Rightarrow> bool" where
  "port_pattern port ws m =
     (port \<noteq> [] \<and> list_all is_digit port \<and> ws \<noteq> [] \<and> list_all is_space ws
      \<and> m = port @ ''/tcp'' @ ws @ ''open'')"

definition match_at_head :: "string \<Rightarrow> bool" where
  "match_at_head s = (\<exists>port ws m rest. port_pattern port ws m \<and> s = m @ rest)"

inductive port_matches :: "string \<Rightarrow> string list \<Rightarrow> bool" where
  no_text: "port_matches [] []"
| match: "port_pattern port ws m \<Longrightarrow> port_matches rest ports
            \<Longrightarrow> port_matches (m @ rest) (port # ports)"
| no_match: "\<not> match_at_head (c # cs) \<Longrightarrow> port_matches cs ports
            \<Longrightarrow> port_matches (c # cs) ports"

text \<open>The number that a string of decimal digits stands for, to compare \<open>str_nat\<close> with.\<close>

definition decimal_value :: "string \<Rightarrow> nat" where
  "decimal_value s = foldl (\<lambda>a c. 10 * a + (of_char c - 48)) 0 s"

section \<open>The world outside the program\<close>

text \<open>
  What the scanner process, the generation backend, the user and the tokenizer of the
  standard library do is not code of this program: each is a parameter of a run.
  \<open>subprocess.run(cmd, capture_output=True, text=True, timeout=3600)\<close> ends in one of three
  ways; \<open>requests.post\<close> raises or gives a response with a status code, whose body, read
  by \<open>response.json()['response']\<close>, gives the generated text or raises.
\<close>

datatype proc_result =
    Timeout_expired
  | Launch_error string
  | Completed int string string

datatype body = Bad_body string | Generated string

datatype http_result = Request_error string | Response nat body

datatype py_exn = EOFError | ValueError string | TypeError | MarkupError string

text \<open>What the program shows on the console, one constructor for each call (or block of
  calls) of \<open>console.print\<close> and \<open>console.input\<close>, with the values it formats.\<close>

datatype event =
    Banner
  | Ask_target
  | No_target
  | Menu
  | Ask_choice
  | Warn_all_ports
  | Ask_ports
  | Custom_hint
  | Ask_flags
  | Invalid_choice
  | Running string
  | Rc_failed int
  | Stderr_text string
  | Scan_complete string
  | Scan_warning string
  | Scan_timed_out
  | Scan_error string
  | Scan_failed_banner
  | Scan_output_label
  | Scan_output string
  | Troubleshooting
  | Ask_proceed
  | Analysis_banner
  | Analysis_complete
  | Analysis_error string
  | Analysis_panel string string
  | Saved string

record world =
  argv :: "string list"
  typed :: "string list"
  shlex_split :: "string \<Rightarrow> string + string list"
  nmap :: "string list \<Rightarrow> proc_result"
  ollama :: "string \<Rightarrow> http_result"
  markup_error :: "event \<Rightarrow> string option"
  disk :: "string \<rightharpoonup> string"

text \<open>
  \<open>argv\<close> is \<open>sys.argv\<close>; \<open>typed\<close> are the lines the user will type, in order (reading
  past the last one raises \<open>EOFError\<close>); \<open>shlex_split\<close> is \<open>shlex.split\<close> (\<open>Inl\<close> the
  message of its \<open>ValueError\<close>); \<open>nmap\<close> answers the command line it is started with;
  \<open>ollama\<close> answers the prompt posted to it (the other fields of the payload are
  constants); \<open>disk\<close> maps a file name to the file's content.

  \<open>console.print\<close> reads its argument as markup, and a closing tag such as \<open>[/x]\<close> that
  closes nothing makes it raise \<open>MarkupError\<close>. The program puts text of the scanner's side
  into markup as it is: the command line (line 44), the captured error text (line 54), the
  message of an exception (line 71) and the first 500 characters of the scan output
  (line 202). \<open>markup_error\<close> is what the library makes of such an output: \<open>None\<close> where it
  prints, the message of the \<open>MarkupError\<close> otherwise. The outputs made of the program's
  literals, of numbers and of the validator's message hold no tag from outside and print;
  those of the analysis and the report (lines 219 to 240) are recorded as printed.
\<close>

section \<open>The scan invoker\<close>

text \<open>Lines 70 to 72, the handler of \<open>except Exception as e\<close>, with the message of \<open>e\<close>:
  its own print can raise, and then nothing catches it.\<close>

definition except_exception ::
  "(event \<Rightarrow> string option) \<Rightarrow> string \<Rightarrow> event list
     \<Rightarrow> (py_exn + string option \<times> string option) \<times> event list" where
  "except_exception rich e shown =
     (case rich (Scan_error e) of
        None \<Rightarrow> (Inr (None, Some e), shown @ [Scan_error e])
      | Some m \<Rightarrow> (Inl (MarkupError m), shown))"

text \<open>\<open>run_nmap(target, options)\<close>: the pair (raw text, error) it returns or the exception
  it raises, and what it prints. The print of line 44 stands before the \<open>try\<close>; a
  \<open>MarkupError\<close> of line 54 is caught by the handler of line 70.\<close>

definition run_nmap ::
  "(event \<Rightarrow> string option) \<Rightarrow> (string list \<Rightarrow> proc_result) \<Rightarrow> string \<Rightarrow> string list
     \<Rightarrow> (py_exn + string option \<times> string option) \<times> event list" where
  "run_nmap rich scanner target options =
     (let cmd = [''nmap''] @ options @ [target]
      in case rich (Running (join '' '' cmd)) of
           Some m \<Rightarrow> (Inl (MarkupError m), [])
         | None \<Rightarrow>
             (let shown = [Running (join '' '' cmd)]
              in case scanner cmd of
                   Completed returncode out err \<Rightarrow>
                     if returncode \<noteq> 0 then
                       (if err \<noteq> [] then
                          (case rich (Stderr_text err) of
                             None \<Rightarrow>
                               (Inr (None, Some ''Scan failed''),
                                shown @ [Rc_failed returncode, Stderr_text err])
                           | Some m \<Rightarrow> except_exception rich m (shown @ [Rc_failed returncode]))
                        else (Inr (None, Some ''Scan failed''), shown @ [Rc_failed returncode]))
                     else
                       (case check_scan_results (Some out) of
                          (is_valid, message) \<Rightarrow>
                            if is_valid
                            then (Inr (Some out, None), shown @ [Scan_complete message])
                            else (Inr (Some out, Some message), shown @ [Scan_warning message]))
                 | Timeout_expired \<Rightarrow> (Inr (None, Some ''Timeout''), shown @ [Scan_timed_out])
                 | Launch_error e \<Rightarrow> except_exception rich e shown))"

section \<open>The analysis requester\<close>

definition prompt_of :: "string option \<Rightarrow> string \<Rightarrow> string" where
  "prompt_of scan_results target =
     ''Target: '' @ target @ ''\<newline>\<newline>Nmap Scan Results:\<newline>'' @ py_str scan_results
     @ ''\<newline>\<newline>Analyze this scan thoroughly:\<newline>''
     @ ''1. List all open ports with services and versions\<newline>''
     @ ''2. Identify vulnerabilities and misconfigurations\<newline>''
     @ ''3. Provide specific enumeration commands for EACH service found\<newline>''
     @ ''4. Prioritize by exploitability (quick wins first)\<newline>''
     @ ''5. Note any unusual or high-value ports\<newline>''
     @ ''6. Suggest specific exploits if versions are vulnerable\<newline>\<newline>''
     @ ''Be comprehensive and actionable. Format with clear markdown headings.\<newline>''"

text \<open>\<open>analyze_scan(scan_results, target)\<close>: the text it returns, and what it prints.\<close>

definition analyze_scan ::
  "(string \<Rightarrow> http_result) \<Rightarrow> string option \<Rightarrow> string \<Rightarrow> string \<times> event list" where
  "analyze_scan backend scan_results target =
     (case backend (prompt_of scan_results target) of
        Response status_code b \<Rightarrow>
          if status_code = 200 then
            (case b of
               Generated text \<Rightarrow> (text, [Analysis_complete])
             | Bad_body e \<Rightarrow> (''Error: '' @ e, [Analysis_complete]))
          else (''Error: '' @ str_nat status_code, [])
      | Request_error e \<Rightarrow> (''Error: '' @ e, []))"

section \<open>The report writer\<close>

text \<open>\<open>s.replace(old, new)\<close> for one-character \<open>old\<close> and \<open>new\<close>.\<close>

definition replace :: "char \<Rightarrow> char \<Rightarrow> string \<Rightarrow> string" where
  "replace old new s = map (\<lambda>c. if c = old then new else c) s"

definition report_name :: "string \<Rightarrow> string" where
  "report_name target =
     (let safe_target = replace CHR ''/'' CHR ''_'' (replace CHR ''.'' CHR ''_'' target)
      in ''analysis_'' @ safe_target @ ''.md'')"

text \<open>
  \<open>save_results(target, scan_results, analysis)\<close>: the file is opened for writing (a file
  of that name loses its content) and four writes follow; \<open>f.write(None)\<close> raises
  \<open>TypeError\<close> after the first three. The result is the file name returned (or the
  exception) and the disk afterwards.
\<close>

definition save_results ::
  "string \<Rightarrow> string option \<Rightarrow> string \<Rightarrow> (string \<rightharpoonup> string)
     \<Rightarrow> (py_exn + string) \<times> (string \<rightharpoonup> string)" where
  "save_results target scan_results analysis fs =
     (let filename = report_name target;
          written = ''# CTF Enumeration: '' @ target @ ''\<newline>\<newline>---\<newline>\<newline>''
                    @ analysis
                    @ ''\<newline>\<newline>---\<newline>\<newline>## Raw Nmap Scan\<newline>\<newline>```text\<newline>''
      in case scan_results of
           None \<Rightarrow> (Inl TypeError, fs(filename \<mapsto> written))
         | Some scan \<Rightarrow>
             (Inr filename, fs(filename \<mapsto> written @ scan @ ''\<newline>```\<newline>'')))"

section \<open>The workflow controller\<close>

text \<open>
  A run of \<open>main\<close> is recorded with what it printed and asked (\<open>events\<close>), the lines not
  yet read (\<open>pending\<close>), the disk, how it ended, and the values of \<open>main\<close>'s variables
  \<open>target\<close>, \<open>options\<close> (after the removal of duplicates), \<open>(scan_results, error)\<close>,
  \<open>analysis\<close> and \<open>filename\<close>, each \<open>None\<close> as long as the variable is not assigned.
\<close>

datatype ending = Returned | Raised py_exn

record run =
  events :: "event list"
  pending :: "string list"
  files :: "string \<rightharpoonup> string"
  ending :: ending
  target_var :: "string option"
  options_var :: "string list option"
  scan_var :: "(string option \<times> string option) option"
  analysis_var :: "string option"
  filename_var :: "string option"

definition start :: "world \<Rightarrow> run" where
  "start w = \<lparr>events = [], pending = typed w, files = disk w, ending = Returned,
              target_var = None, options_var = None, scan_var = None, analysis_var = None,
              filename_var = None\<rparr>"

text \<open>\<open>console.print\<close>, and \<open>console.input\<close> followed by the rest of the program.\<close>

definition say :: "event list \<Rightarrow> run \<Rightarrow> run" where
  "say es r = r\<lparr>events := events r @ es\<rparr>"

definition ask :: "event \<Rightarrow> run \<Rightarrow> (string \<Rightarrow> run \<Rightarrow> run) \<Rightarrow> run" where
  "ask e r k =
     (case pending r of
        [] \<Rightarrow> (say [e] r)\<lparr>ending := Raised EOFError\<rparr>
      | line # rest \<Rightarrow> k line ((say [e] r)\<lparr>pending := rest\<rparr>))"

text \<open>\<open>list(dict.fromkeys(options))\<close>: a key is inserted where it is not yet in the
  dictionary, and the keys come out in the order of insertion.\<close>

primrec fromkeys :: "string list \<Rightarrow> string list \<Rightarrow> string list" where
  "fromkeys keys [] = keys"
| "fromkeys keys (x # xs) = fromkeys (if x \<in> set keys then keys else keys @ [x]) xs"

definition dict_fromkeys :: "string list \<Rightarrow> string list" where
  "dict_fromkeys xs = fromkeys [] xs"

text \<open>Lines 140 to 144 of \<open>main\<close>: the target.\<close>

definition get_target :: "world \<Rightarrow> run \<Rightarrow> (string \<Rightarrow> run \<Rightarrow> run) \<Rightarrow> run" where
  "get_target w r k =
     (if length (argv w) > 1 then k (argv w ! 1) r
      else ask Ask_target r (\<lambda>line. k (strip line)))"

text \<open>Lines 161 to 186 of \<open>main\<close>: the options of the chosen mode.\<close>

definition build_options ::
  "(string \<Rightarrow> string + string list) \<Rightarrow> string \<Rightarrow> run \<Rightarrow> (string list \<Rightarrow> run \<Rightarrow> run) \<Rightarrow> run" where
  "build_options split choice r k =
     (if choice = ''1'' then k [''-Pn'', ''-sV'', ''-sC'', ''-T4''] r
      else if choice = ''2'' then
        k [''-Pn'', ''-sV'', ''-sC'', ''-p-'', ''-T4''] (say [Warn_all_ports] r)
      else if choice = ''3'' then k [''-Pn'', ''-A'', ''-T4''] r
      else if choice = ''4'' then
        ask Ask_ports r (\<lambda>line.
          let ports = strip line;
              ports = (if ports = [] then ''1-10000'' else ports)
          in k [''-Pn'', ''-sV'', ''-sC'', ''-p'' @ ports, ''-T4''])
      else if choice = ''5'' then
        ask Ask_flags (say [Custom_hint] r) (\<lambda>line r.
          let custom_flags = strip line
          in if custom_flags \<noteq> [] then
               (case split custom_flags of
                  Inl msg \<Rightarrow> r\<lparr>ending := Raised (ValueError msg)\<rparr>
                | Inr options \<Rightarrow>
                    k (if ''-Pn'' \<in> set options then options else ''-Pn'' # options) r)
             else k [''-Pn'', ''-sV'', ''-sC''] r)
      else k [''-Pn'', ''-sV'', ''-sC'', ''-p-'', ''-T4''] (say [Invalid_choice] r))"

text \<open>Lines 219 to 240 of \<open>main\<close>: the analysis and the report.\<close>

definition report :: "world \<Rightarrow> string \<Rightarrow> string option \<Rightarrow> run \<Rightarrow> run" where
  "report w target scan_results r =
     (case analyze_scan (ollama w) scan_results target of
        (analysis, shown) \<Rightarrow>
          let r = (say ([Analysis_banner] @ shown) r)\<lparr>analysis_var := Some analysis\<rparr>
          in if startswith analysis ''Error:'' then say [Analysis_error analysis] r
             else
               let r = say [Analysis_panel target analysis] r
               in (case save_results target scan_results analysis (files r) of
                     (Inl e, fs) \<Rightarrow> r\<lparr>files := fs, ending := Raised e\<rparr>
                   | (Inr filename, fs) \<Rightarrow>
                       say [Saved filename] (r\<lparr>files := fs, filename_var := Some filename\<rparr>)))"

text \<open>Lines 204 to 217 of \<open>main\<close>: the suggestions, and the prompt to proceed.\<close>

definition offer_proceed ::
  "world \<Rightarrow> string \<Rightarrow> string option \<Rightarrow> string option \<Rightarrow> run \<Rightarrow> run" where
  "offer_proceed w target scan_results error r =
     (let r = say [Troubleshooting] r
      in if truthy scan_results \<and> \<not> contains (py_str error) ''No open ports'' then
           ask Ask_proceed r (\<lambda>line r.
             let proceed = lower (strip line)
             in if proceed \<noteq> ''y'' then r else report w target scan_results r)
         else r)"

text \<open>Lines 191 to 217 of \<open>main\<close>: the scan, and what follows a scan that failed. An
  exception of \<open>run_nmap\<close> ends the run before \<open>scan_results\<close> and \<open>error\<close> are assigned; so
  does a \<open>MarkupError\<close> of the print of line 202, after the label of line 201.\<close>

definition scan_and_report :: "world \<Rightarrow> string \<Rightarrow> string list \<Rightarrow> run \<Rightarrow> run" where
  "scan_and_report w target options r =
     (case run_nmap (markup_error w) (nmap w) target options of
        (Inl e, shown) \<Rightarrow> (say shown r)\<lparr>ending := Raised e\<rparr>
      | (Inr (scan_results, error), shown) \<Rightarrow>
          let r = (say shown r)\<lparr>scan_var := Some (scan_results, error)\<rparr>
          in if \<not> truthy scan_results \<or> truthy error then
               let r = say [Scan_failed_banner] r
               in if truthy scan_results then
                    (case markup_error w (Scan_output (take 500 (py_str scan_results))) of
                       Some m \<Rightarrow> (say [Scan_output_label] r)\<lparr>ending := Raised (MarkupError m)\<rparr>
                     | None \<Rightarrow>
                         offer_proceed w target scan_results error
                           (say [Scan_output_label,
                                 Scan_output (take 500 (py_str scan_results))] r))
                  else offer_proceed w target scan_results error r
             else report w target scan_results r)"

definition main :: "world \<Rightarrow> run" where
  "main w =
     get_target w (say [Banner] (start w)) (\<lambda>target r.
       let r = r\<lparr>target_var := Some target\<rparr>
       in if target = [] then say [No_target] r
       else
         ask Ask_choice (say [Menu] r) (\<lambda>line r.
           let choice = (if strip line = [] then ''2'' else strip line)
           in build_options (shlex_split w) choice r (\<lambda>options r.
                let options = dict_fromkeys options
                in scan_and_report w target options (r\<lparr>options_var := Some options\<rparr>))))"

text \<open>
  Where a run stands: \<open>stopped_early\<close> holds of a run that has not come to the scan,
  \<open>before_scan\<close> of one that is about to scan \<open>target\<close> with \<open>options\<close>, and \<open>scanned\<close>
  of what \<open>scan_and_report\<close> makes of such a run.
\<close>

definition before_scan :: "world \<Rightarrow> string \<Rightarrow> string list \<Rightarrow> run \<Rightarrow> bool" where
  "before_scan w target options r =
     (files r = disk w \<and> ending r = Returned \<and> target_var r = Some target
      \<and> options_var r = Some options \<and> scan_var r = None \<and> analysis_var r = None
      \<and> filename_var r = None \<and> Ask_proceed \<notin> set (events r)
      \<and> target \<noteq> [] \<and> ''-Pn'' \<in> set options \<and> distinct options)"

definition stopped_early :: "world \<Rightarrow> run \<Rightarrow> bool" where
  "stopped_early w r =
     (files r = disk w \<and> options_var r = None \<and> scan_var r = None \<and> analysis_var r = None
      \<and> filename_var r = None \<and> Ask_proceed \<notin> set (events r)
      \<and> ending r \<noteq> Raised TypeError)"

definition scanned :: "world \<Rightarrow> run \<Rightarrow> bool" where
  "scanned w r' =
     (\<exists>target options r. before_scan w target options r
        \<and> r' = scan_and_report w target options r)"

section \<open>Sample scanner outputs\<close>

text \<open>Outputs of the scanner, used to run the definitions: two open ports; a host that
  seems down, with a line of an open port all the same; filtered ports only; no port line at
  all; and, further down, three open ports before a closed one, and a script result that
  holds the closing tag \<open>[/admin]\<close>.\<close>

definition sample_open :: string where
  "sample_open = ''Nmap scan report for 10.10.10.5\<newline>PORT   STATE SERVICE\<newline>80/tcp open  http\<newline>22/tcp open  ssh\<newline>''"

definition sample_down :: string where
  "sample_down = ''Note: Host seems down. If it is really up, but blocking our ping probes, try -Pn\<newline>80/tcp open  http\<newline>''"

definition sample_filtered :: string where
  "sample_filtered = ''Nmap scan report for 10.10.10.5\<newline>All 1000 scanned ports on 10.10.10.5 are in ignored states.\<newline>Not shown: 1000 filtered tcp ports (no-response)\<newline>''"

definition sample_nothing :: string where
  "sample_nothing = ''Starting Nmap 7.94 ( https://nmap.org ) at 2024-01-01 10:00 UTC\<newline>Nmap done: 1 IP address scanned\<newline>''"

definition sample_three :: string where
  "sample_three = ''PORT   STATE SERVICE\<newline>21/tcp open  ftp\<newline>22/tcp open  ssh\<newline>80/tcp   open  http\<newline>443/tcp closed https\<newline>''"

definition sample_admin :: string where
  "sample_admin = ''Nmap scan report for 10.10.10.5\<newline>Host script results: http-title [/admin] redirect\<newline>''"

text \<open>A world for sample runs: the target \<open>10.10.10.5\<close> on the command line, the lines
  the user types, one answer of the scanner, one answer of the backend, an empty disk, a
  tokenizer that rejects its input, and a console on which every output prints (the sample
  outputs above hold no tag).\<close>

definition world_of :: "string list \<Rightarrow> proc_result \<Rightarrow> http_result \<Rightarrow> world" where
  "world_of lines scan reply =
     \<lparr>argv = [''ctf.py'', ''10.10.10.5''], typed = lines,
      shlex_split = (\<lambda>s. Inl ''No closing quotation''),
      nmap = (\<lambda>cmd. scan), ollama = (\<lambda>p. reply), markup_error = (\<lambda>e. None),
      disk = Map.empty\<rparr>"

text \<open>Sample worlds, each built from \<open>world_of\<close>: open ports and the default mode; a
  host that seems down, the quick mode, and a user who answers \<open>y\<close>; filtered ports only;
  a scan that times out after an invalid mode; a backend that answers with status 500;
  custom flags \<open>-sS -p80\<close> with their tokens.\<close>

definition w_open :: world where
  "w_open = world_of [[]] (Completed 0 sample_open [])
              (Response 200 (Generated ''## Open ports''))"

definition w_down :: world where
  "w_down = world_of [''1'', ''y''] (Completed 0 sample_down [])
              (Response 200 (Generated ''## Host down''))"

definition w_filtered :: world where
  "w_filtered = world_of [''1'', ''y''] (Completed 0 sample_filtered [])
              (Response 200 (Generated ''## Filtered''))"

definition w_timeout :: world where
  "w_timeout = world_of [''9'', ''y''] Timeout_expired (Response 200 (Generated ''## None''))"

definition w_500 :: world where
  "w_500 = world_of [''2''] (Completed 0 sample_open []) (Response 500 (Bad_body []))"

definition w_custom :: world where
  "w_custom = (world_of [''5'', ''-sS -p80''] Timeout_expired (Request_error []))
                \<lparr>shlex_split := (\<lambda>s. Inr [''-sS'', ''-p80''])\<rparr>"

text \<open>
  Two worlds whose scanner gives text with a closing tag. In \<open>w_stderr\<close> the scanner exits
  with code 2 and the error text \<open>bad [/x] tag\<close>: the print of line 54 raises, and so does
  the print of line 71, whose text quotes the tag. In \<open>w_admin\<close> the scan output holds
  \<open>[/admin]\<close> and no port line: the print of line 202 raises. The messages are those of
  the library for these outputs.
\<close>

definition w_stderr :: world where
  "w_stderr = (world_of [''1''] (Completed 2 [] ''bad [/x] tag'')
                 (Response 200 (Generated ''## None'')))
       \<lparr>markup_error := (\<lambda>e.
            if e = Stderr_text ''bad [/x] tag''
            then Some ''closing tag '[/x]' at position 20 doesn't match any open tag''
            else if e = Scan_error ''closing tag '[/x]' at position 20 doesn't match any open tag''
            then Some ''closing tag '[/x]' at position 32 doesn't match any open tag''
            else None)\<rparr>"

definition w_admin :: world where
  "w_admin = (world_of [''1'', ''y''] (Completed 0 sample_admin [])
                (Response 200 (Generated ''## Admin page'')))
       \<lparr>markup_error := (\<lambda>e.
            if e = Scan_output sample_admin
            then Some ''closing tag '[/admin]' at position 69 doesn't match any open tag''
            else None)\<rparr>"

section \<open>Properties of the validator\<close>

lemma startswith_iff: "startswith s p \<longleftrightarrow> (\<exists>post. s = p @ post)"
  unfolding startswith_def by (metis append_eq_conv_conj append_take_drop_id)

lemma not_digit_slash: "\<not> is_digit CHR ''/''"
  by (simp add: is_digit_def)

lemma not_space_o: "\<not> is_space CHR ''o''"
  by (simp add: is_space_def)

lemma match_here_decomp:
  assumes "ds \<noteq> []" "list_all is_digit ds" "ws \<noteq> []" "list_all is_space ws"
  shows "match_here (ds @ ''/tcp'' @ ws @ ''open'' @ rest) = Some (ds, rest)"
proof -
  let ?s = "ds @ ''/tcp'' @ ws @ ''open'' @ rest"
  have d: "\<And>x. x \<in> set ds \<Longrightarrow> is_digit x" using assms(2) by (simp add: list_all_iff)
  have w: "\<And>x. x \<in> set ws \<Longrightarrow> is_space x" using assms(4) by (simp add: list_all_iff)
  have t: "takeWhile is_digit ?s = ds" using d not_digit_slash by simp
  have r1: "dropWhile is_digit ?s = ''/tcp'' @ ws @ ''open'' @ rest"
    using d not_digit_slash by simp
  have tw: "takeWhile is_space (ws @ ''open'' @ rest) = ws" using w not_space_o by simp
  have dw: "dropWhile is_space (ws @ ''open'' @ rest) = ''open'' @ rest"
    using w not_space_o by simp
  show ?thesis
    unfolding match_here_def Let_def t r1 using assms(1,3) tw dw
    by (simp add: startswith_def)
qed

lemma startswith_split4: "length p = 4 \<Longrightarrow> startswith r p \<Longrightarrow> r = p @ drop 4 r"
  unfolding startswith_def by (metis append_take_drop_id)

lemma match_here_sound:
  assumes "match_here s = Some (ds, rest)"
  shows "\<exists>ws. s = ds @ ''/tcp'' @ ws @ ''open'' @ rest \<and> ds \<noteq> [] \<and> list_all is_digit ds
            \<and> ws \<noteq> [] \<and> list_all is_space ws"
proof -
  let ?r1 = "dropWhile is_digit s"
  let ?r2 = "drop 4 ?r1"
  let ?ws = "takeWhile is_space ?r2"
  let ?r3 = "dropWhile is_space ?r2"
  from assms have ds: "ds = takeWhile is_digit s" and ne: "ds \<noteq> []"
    and p1: "startswith ?r1 ''/tcp''" and wne: "?ws \<noteq> []"
    and p2: "startswith ?r3 ''open''" and rest: "rest = drop 4 ?r3"
    by (auto simp: match_here_def Let_def split: if_splits)
  have a: "s = ds @ ?r1" using ds by simp
  have b: "?r1 = ''/tcp'' @ ?r2" using startswith_split4[OF _ p1] by simp
  have c: "?r2 = ?ws @ ?r3" by simp
  have d: "?r3 = ''open'' @ rest" using startswith_split4[OF _ p2] rest by simp
  have "s = ds @ ''/tcp'' @ ?ws @ ''open'' @ rest" using a b c d by metis
  moreover have "list_all is_digit ds" unfolding ds list_all_iff by (auto dest: set_takeWhileD)
  moreover have "list_all is_space ?ws" unfolding list_all_iff by (auto dest: set_takeWhileD)
  ultimately show ?thesis using ne wne by blast
qed

lemma findall_complete:
  assumes "ds \<noteq> []" "list_all is_digit ds" "ws \<noteq> []" "list_all is_space ws"
  shows "findall (pre @ ds @ ''/tcp'' @ ws @ ''open'' @ post) \<noteq> []"
proof (induction pre)
  case Nil
  obtain c cs where e: "ds @ ''/tcp'' @ ws @ ''open'' @ post = c # cs"
    using assms(1) by (cases ds) auto
  have "match_here (c # cs) = Some (ds, post)"
    using match_here_decomp[OF assms, of post] e by simp
  then show ?case using e by simp
next
  case (Cons a pre)
  show ?case
  proof (cases "match_here (a # pre @ ds @ ''/tcp'' @ ws @ ''open'' @ post)")
    case None
    then show ?thesis using Cons.IH by simp
  next
    case (Some pr)
    then show ?thesis by (cases pr) simp
  qed
qed

lemma contains_iff: "contains s sub \<longleftrightarrow> (\<exists>pre post. s = pre @ sub @ post)"
proof (induction s)
  case Nil
  then show ?case by auto
next
  case (Cons c cs)
  have "(\<exists>pre post. c # cs = pre @ sub @ post) \<longleftrightarrow>
      (\<exists>post. c # cs = sub @ post) \<or> (\<exists>pre post. cs = pre @ sub @ post)"
  proof
    assume "\<exists>pre post. c # cs = pre @ sub @ post"
    then obtain pre post where e: "c # cs = pre @ sub @ post" by blast
    show "(\<exists>post. c # cs = sub @ post) \<or> (\<exists>pre post. cs = pre @ sub @ post)"
    proof (cases pre)
      case Nil
      with e show ?thesis by auto
    next
      case (Cons a pre')
      with e have "cs = pre' @ sub @ post" by simp
      then show ?thesis by blast
    qed
  next
    assume "(\<exists>post. c # cs = sub @ post) \<or> (\<exists>pre post. cs = pre @ sub @ post)"
    then show "\<exists>pre post. c # cs = pre @ sub @ post"
    proof
      assume "\<exists>post. c # cs = sub @ post"
      then obtain post where "c # cs = [] @ sub @ post" by auto
      then show ?thesis by blast
    next
      assume "\<exists>pre post. cs = pre @ sub @ post"
      then obtain pre post where "cs = pre @ sub @ post" by blast
      then have "c # cs = (c # pre) @ sub @ post" by simp
      then show ?thesis by blast
    qed
  qed
  then show ?case using Cons.IH by (simp add: startswith_iff)
qed

lemma findall_sound:
  "p \<in> set (findall s) \<Longrightarrow>
     p \<noteq> [] \<and> list_all is_digit p
     \<and> (\<exists>ws. ws \<noteq> [] \<and> list_all is_space ws \<and> contains s (p @ ''/tcp'' @ ws @ ''open''))"
proof (induction s rule: findall.induct)
  case 1
  then show ?case by simp
next
  case (2 c cs)
  show ?case
  proof (cases "match_here (c # cs)")
    case None
    then have "p \<in> set (findall cs)" using "2.prems" by simp
    from "2.IH"(1)[OF None this] show ?thesis by auto
  next
    case (Some qr)
    obtain q r where qr: "qr = (q, r)" by (cases qr)
    have m: "match_here (c # cs) = Some (q, r)" using Some qr by simp
    from match_here_sound[OF m] obtain ws where
      d: "c # cs = q @ ''/tcp'' @ ws @ ''open'' @ r" "q \<noteq> []" "list_all is_digit q"
         "ws \<noteq> []" "list_all is_space ws"
      by blast
    from "2.prems" m have "p = q \<or> p \<in> set (findall r)" by simp
    then show ?thesis
    proof
      assume pq: "p = q"
      have "c # cs = [] @ (q @ ''/tcp'' @ ws @ ''open'') @ r" using d(1) by simp
      then have "contains (c # cs) (q @ ''/tcp'' @ ws @ ''open'')"
        unfolding contains_iff by blast
      then show ?thesis using pq d by blast
    next
      assume "p \<in> set (findall r)"
      from "2.IH"(2)[OF m refl this] obtain ws' where
        i: "p \<noteq> []" "list_all is_digit p" "ws' \<noteq> []" "list_all is_space ws'"
           "contains r (p @ ''/tcp'' @ ws' @ ''open'')"
        by blast
      from i(5) obtain pre post where "r = pre @ (p @ ''/tcp'' @ ws' @ ''open'') @ post"
        unfolding contains_iff by blast
      then have "c # cs = (q @ ''/tcp'' @ ws @ ''open'' @ pre)
                    @ (p @ ''/tcp'' @ ws' @ ''open'') @ post"
        using d(1) by simp
      then have "contains (c # cs) (p @ ''/tcp'' @ ws' @ ''open'')"
        unfolding contains_iff by blast
      then show ?thesis using i by blast
    qed
  qed
qed

lemma match_here_pattern:
  "port_pattern port ws m \<Longrightarrow> match_here (m @ rest) = Some (port, rest)"
  using match_here_decomp[of port ws rest] by (simp add: port_pattern_def)

lemma match_here_Some_pattern:
  assumes "match_here s = Some (port, rest)"
  shows "\<exists>ws m. port_pattern port ws m \<and> s = m @ rest"
proof -
  from match_here_sound[OF assms] obtain ws where
    "s = port @ ''/tcp'' @ ws @ ''open'' @ rest" "port \<noteq> []" "list_all is_digit port"
    "ws \<noteq> []" "list_all is_space ws"
    by blast
  then have "port_pattern port ws (port @ ''/tcp'' @ ws @ ''open'')
             \<and> s = (port @ ''/tcp'' @ ws @ ''open'') @ rest"
    by (simp add: port_pattern_def)
  then show ?thesis by blast
qed

lemma match_at_head_iff: "match_at_head s \<longleftrightarrow> match_here s \<noteq> None"
proof
  assume "match_at_head s"
  then obtain port ws m rest where "port_pattern port ws m" "s = m @ rest"
    unfolding match_at_head_def by blast
  then show "match_here s \<noteq> None" using match_here_pattern[of port ws m rest] by simp
next
  assume "match_here s \<noteq> None"
  then obtain port rest where "match_here s = Some (port, rest)" by auto
  from match_here_Some_pattern[OF this] show "match_at_head s"
    unfolding match_at_head_def by blast
qed

lemma findall_head:
  assumes "port_pattern port ws m"
  shows "findall (m @ rest) = port # findall rest"
proof -
  have "m \<noteq> []" using assms by (auto simp: port_pattern_def)
  then obtain c cs where e: "m @ rest = c # cs" by (cases m) auto
  have "match_here (c # cs) = Some (port, rest)"
    using match_here_pattern[OF assms, of rest] e by simp
  then show ?thesis using e by simp
qed

lemma findall_skip: "\<not> match_at_head (c # cs) \<Longrightarrow> findall (c # cs) = findall cs"
proof -
  assume "\<not> match_at_head (c # cs)"
  then have "match_here (c # cs) = None" using match_at_head_iff[of "c # cs"] by blast
  then show ?thesis by simp
qed

lemma port_matches_findall: "port_matches s ports \<Longrightarrow> findall s = ports"
proof (induction rule: port_matches.induct)
  case no_text
  show ?case by simp
next
  case (match port ws m rest ports)
  then show ?case using findall_head[of port ws m rest] by simp
next
  case (no_match c cs ports)
  then show ?case using findall_skip[of c cs] by simp
qed

lemma findall_port_matches: "port_matches s (findall s)"
proof (induction s rule: findall.induct)
  case 1
  show ?case by (simp add: no_text)
next
  case (2 c cs)
  show ?case
  proof (cases "match_here (c # cs)")
    case None
    then have "\<not> match_at_head (c # cs)" using match_at_head_iff[of "c # cs"] by blast
    then have "port_matches (c # cs) (findall cs)" using "2.IH"(1)[OF None] by (rule no_match)
    then show ?thesis using None by simp
  next
    case (Some pr)
    obtain port rest where pr: "pr = (port, rest)" by (cases pr)
    have m: "match_here (c # cs) = Some (port, rest)" using Some pr by simp
    from match_here_Some_pattern[OF m] obtain ws mt where
      p: "port_pattern port ws mt" and e: "c # cs = mt @ rest"
      by blast
    have "port_matches rest (findall rest)" using "2.IH"(2)[OF m refl] .
    with p have "port_matches (mt @ rest) (port # findall rest)" by (rule match)
    moreover have "findall (c # cs) = port # findall rest" using m by simp
    ultimately show ?thesis using e by simp
  qed
qed

lemma port_matches_iff: "port_matches s ports \<longleftrightarrow> ports = findall s"
  using port_matches_findall findall_port_matches by blast

lemma decimal_value_snoc: "decimal_value (s @ [c]) = 10 * decimal_value s + (of_char c - 48)"
  by (simp add: decimal_value_def)

lemma digit_chars:
  "\<forall>k \<in> set [0 ..< 10]. is_digit (char_of (48 + k))
       \<and> (of_char (char_of (48 + k) :: char) :: nat) = 48 + k"
  by code_simp

lemma str_nat_decimal: "decimal_value (str_nat n) = n \<and> list_all is_digit (str_nat n)"
proof (induction n rule: str_nat.induct)
  case (1 n)
  have d: "is_digit (char_of (48 + k)) \<and> (of_char (char_of (48 + k) :: char) :: nat) = 48 + k"
    if "k < 10" for k :: nat
    using digit_chars that by simp
  show ?case
  proof (cases "n < 10")
    case True
    have "str_nat n = [char_of (48 + n)]" using True by (simp add: str_nat.simps)
    then show ?thesis using d[OF True] by (simp add: decimal_value_def)
  next
    case False
    have e: "str_nat n = str_nat (n div 10) @ [char_of (48 + n mod 10)]"
      using False by (subst str_nat.simps) simp
    have m: "n mod 10 < 10" by simp
    show ?thesis
      using "1.IH"[OF False] e d[OF m]
      by (simp add: decimal_value_snoc)
  qed
qed

section \<open>Properties of the controller's parts\<close>

lemma set_fromkeys: "set (fromkeys keys xs) = set keys \<union> set xs"
  by (induction xs arbitrary: keys) auto

lemma distinct_fromkeys: "distinct keys \<Longrightarrow> distinct (fromkeys keys xs)"
  by (induction xs arbitrary: keys) auto

lemma fromkeys_distinct: "distinct (keys @ xs) \<Longrightarrow> fromkeys keys xs = keys @ xs"
  by (induction xs arbitrary: keys) auto

lemma set_dict_fromkeys: "set (dict_fromkeys xs) = set xs"
  by (simp add: dict_fromkeys_def set_fromkeys)

lemma distinct_dict_fromkeys: "distinct (dict_fromkeys xs)"
  by (simp add: dict_fromkeys_def distinct_fromkeys)

lemma dict_fromkeys_distinct: "distinct xs \<Longrightarrow> dict_fromkeys xs = xs"
  using fromkeys_distinct[of "[]" xs] by (simp add: dict_fromkeys_def)

lemma fromkeys_filter:
  "fromkeys keys xs = keys @ fromkeys [] (filter (\<lambda>x. x \<notin> set keys) xs)"
proof (induction "length xs" arbitrary: xs keys rule: less_induct)
  case less
  show ?case
  proof (cases xs)
    case Nil
    then show ?thesis by simp
  next
    case (Cons x ys)
    show ?thesis
    proof (cases "x \<in> set keys")
      case True
      then show ?thesis using less[of ys keys] Cons by simp
    next
      case False
      let ?zs = "filter (\<lambda>y. y \<notin> set keys) ys"
      have "length ?zs < length xs" using Cons by (simp add: le_imp_less_Suc)
      then have a: "fromkeys [x] ?zs = [x] @ fromkeys [] (filter (\<lambda>y. y \<notin> set [x]) ?zs)"
        by (rule less)
      have b: "fromkeys (keys @ [x]) ys
                 = (keys @ [x]) @ fromkeys [] (filter (\<lambda>y. y \<notin> set (keys @ [x])) ys)"
        using less[of ys "keys @ [x]"] Cons by simp
      have c: "filter (\<lambda>y. y \<notin> set [x]) ?zs = filter (\<lambda>y. y \<notin> set (keys @ [x])) ys"
        by (auto intro: filter_cong)
      show ?thesis using False Cons a b c by simp
    qed
  qed
qed

lemma truthy_Some: "truthy x \<Longrightarrow> \<exists>s. x = Some s \<and> s \<noteq> []"
  by (cases x) (simp_all add: truthy_def)

lemma report_frame:
  "options_var (report w t s r) = options_var r \<and> scan_var (report w t s r) = scan_var r
   \<and> target_var (report w t s r) = target_var r \<and> pending (report w t s r) = pending r"
  by (simp add: report_def say_def Let_def split: prod.splits sum.splits)

lemma report_analysis:
  "analysis_var (report w t s r) = Some (fst (analyze_scan (ollama w) s t))"
  by (simp add: report_def say_def Let_def split: prod.splits sum.splits)

lemma report_no_prompt:
  "Ask_proceed \<in> set (events (report w t s r)) \<longleftrightarrow> Ask_proceed \<in> set (events r)"
  by (auto simp: report_def say_def Let_def analyze_scan_def
           split: prod.splits sum.splits http_result.splits body.splits if_splits)

lemma report_error:
  assumes "startswith (fst (analyze_scan (ollama w) s t)) ''Error:''"
  shows "files (report w t s r) = files r \<and> filename_var (report w t s r) = filename_var r
         \<and> ending (report w t s r) = ending r
         \<and> events (report w t s r)
             = events r @ [Analysis_banner] @ snd (analyze_scan (ollama w) s t)
                 @ [Analysis_error (fst (analyze_scan (ollama w) s t))]"
  using assms by (cases "analyze_scan (ollama w) s t") (simp add: report_def say_def Let_def)

lemma report_written:
  assumes "\<not> startswith (fst (analyze_scan (ollama w) (Some out) t)) ''Error:''"
  shows "files (report w t (Some out) r)
           = snd (save_results t (Some out) (fst (analyze_scan (ollama w) (Some out) t)) (files r))
         \<and> filename_var (report w t (Some out) r) = Some (report_name t)
         \<and> ending (report w t (Some out) r) = ending r
         \<and> Saved (report_name t) \<in> set (events (report w t (Some out) r))"
  using assms
  by (cases "analyze_scan (ollama w) (Some out) t")
     (simp add: report_def say_def Let_def save_results_def)

lemma report_events: "\<exists>es. events (report w t s r) = events r @ es"
  by (simp add: report_def say_def Let_def split: prod.splits sum.splits)

lemma report_events_trans:
  "\<exists>es. events r' = events r @ es \<Longrightarrow> \<exists>es. events (report w t s r') = events r @ es"
  using report_events[of w t s r'] by auto


lemma run_nmap_no_prompt: "Ask_proceed \<notin> set (snd (run_nmap rich scanner t opts))"
  by (simp add: run_nmap_def except_exception_def Let_def
           split: option.splits proc_result.splits prod.splits)

lemma run_nmap_failed_text:
  assumes "fst (run_nmap rich scanner t opts) = Inr (Some out, Some reason)"
  shows "reason \<noteq> [] \<and> check_scan_results (Some out) = (False, reason)
         \<and> (\<exists>err. scanner ([''nmap''] @ opts @ [t]) = Completed 0 out err)"
proof -
  have ne: "snd (check_scan_results x) \<noteq> []" if "\<not> fst (check_scan_results x)" for x
    using that by (auto simp: check_scan_results_def Let_def split: option.splits if_splits)
  show ?thesis
    using assms ne[of "Some out"]
    by (auto simp: run_nmap_def except_exception_def Let_def
             split: option.splits proc_result.splits if_splits prod.splits)
qed

lemma run_nmap_no_text:
  assumes "fst (run_nmap rich scanner t opts) = Inr (scan_results, error)"
    and "scanner ([''nmap''] @ opts @ [t]) = Timeout_expired
         \<or> (\<exists>e. scanner ([''nmap''] @ opts @ [t]) = Launch_error e)
         \<or> (\<exists>returncode out err.
               scanner ([''nmap''] @ opts @ [t]) = Completed returncode out err
               \<and> returncode \<noteq> 0)"
  shows "scan_results = None"
  using assms
  by (auto simp: run_nmap_def except_exception_def Let_def split: option.splits if_splits)

lemma offer_proceed_frame:
  "options_var (offer_proceed w t s e r) = options_var r
   \<and> target_var (offer_proceed w t s e r) = target_var r
   \<and> scan_var (offer_proceed w t s e r) = scan_var r"
  by (simp add: offer_proceed_def ask_def say_def Let_def report_frame split: list.splits)

lemma offer_proceed_prompt:
  assumes "Ask_proceed \<notin> set (events r)"
  shows "Ask_proceed \<in> set (events (offer_proceed w t s e r))
         \<longleftrightarrow> truthy s \<and> \<not> contains (py_str e) ''No open ports''"
  using assms
  by (auto simp: offer_proceed_def ask_def say_def Let_def report_no_prompt split: list.splits)

lemma offer_proceed_events: "\<exists>es. events (offer_proceed w t s e r) = events r @ es"
  by (auto simp: offer_proceed_def ask_def say_def Let_def
           intro!: report_events_trans split: list.splits)

lemma offer_proceed_shape:
  assumes stop: "\<And>r'. files r' = files r \<Longrightarrow> filename_var r' = filename_var r
                   \<Longrightarrow> analysis_var r' = analysis_var r
                   \<Longrightarrow> ending r' = ending r \<or> ending r' = Raised EOFError \<Longrightarrow> P r'"
    and rep: "\<And>r'. truthy s \<Longrightarrow> files r' = files r \<Longrightarrow> filename_var r' = filename_var r
                   \<Longrightarrow> ending r' = ending r \<Longrightarrow> P (report w t s r')"
  shows "P (offer_proceed w t s e r)"
proof -
  define r3 where "r3 = say [Troubleshooting] r"
  have f3: "files r3 = files r" "filename_var r3 = filename_var r"
    "analysis_var r3 = analysis_var r" "ending r3 = ending r"
    by (simp_all add: r3_def say_def)
  show ?thesis
  proof (cases "truthy s \<and> \<not> contains (py_str e) ''No open ports''")
    case False
    then have "offer_proceed w t s e r = r3"
      by (auto simp: offer_proceed_def r3_def Let_def)
    then show ?thesis using stop[of r3] f3 by simp
  next
    case prompt: True
    have e: "offer_proceed w t s e r
               = ask Ask_proceed r3 (\<lambda>line r.
                    let proceed = lower (strip line)
                    in if proceed \<noteq> ''y'' then r else report w t s r)"
      using prompt by (simp add: offer_proceed_def r3_def Let_def)
    show ?thesis
    proof (cases "pending r3")
      case Nil
      then have "offer_proceed w t s e r = (say [Ask_proceed] r3)\<lparr>ending := Raised EOFError\<rparr>"
        using e by (simp add: ask_def)
      then show ?thesis
        using stop[of "(say [Ask_proceed] r3)\<lparr>ending := Raised EOFError\<rparr>"] f3
        by (simp add: say_def)
    next
      case (Cons line rest)
      let ?r4 = "(say [Ask_proceed] r3)\<lparr>pending := rest\<rparr>"
      have f4: "files ?r4 = files r" "filename_var ?r4 = filename_var r"
        "analysis_var ?r4 = analysis_var r" "ending ?r4 = ending r"
        by (simp_all add: say_def f3)
      show ?thesis
      proof (cases "lower (strip line) = ''y''")
        case True
        then have "offer_proceed w t s e r = report w t s ?r4"
          using e Cons by (simp add: ask_def Let_def)
        then show ?thesis using rep[of ?r4] prompt f4 by simp
      next
        case False
        then have "offer_proceed w t s e r = ?r4"
          using e Cons by (simp add: ask_def Let_def)
        then show ?thesis using stop[of ?r4] f4 by simp
      qed
    qed
  qed
qed

lemma scan_and_report_frame:
  "options_var (scan_and_report w t opts r) = options_var r
   \<and> target_var (scan_and_report w t opts r) = target_var r
   \<and> scan_var (scan_and_report w t opts r)
       = (case fst (run_nmap (markup_error w) (nmap w) t opts) of
            Inl e \<Rightarrow> scan_var r
          | Inr returned \<Rightarrow> Some returned)"
  by (simp add: scan_and_report_def say_def Let_def report_frame offer_proceed_frame
           split: prod.splits sum.splits option.splits)

lemma scan_and_report_prompt:
  assumes "Ask_proceed \<notin> set (events r)"
    and "fst (run_nmap (markup_error w) (nmap w) t opts) = Inr (scan_results, error)"
    and "\<not> truthy scan_results \<or> truthy error"
  shows "Ask_proceed \<in> set (events (scan_and_report w t opts r))
         \<longleftrightarrow> truthy scan_results \<and> \<not> contains (py_str error) ''No open ports''
               \<and> markup_error w (Scan_output (take 500 (py_str scan_results))) = None"
proof -
  obtain shown where rn: "run_nmap (markup_error w) (nmap w) t opts
                            = (Inr (scan_results, error), shown)"
    using assms(2) by (cases "run_nmap (markup_error w) (nmap w) t opts") simp
  have ns: "Ask_proceed \<notin> set shown"
    using run_nmap_no_prompt[of "markup_error w" "nmap w" t opts] rn by simp
  let ?r1 = "say [Scan_failed_banner] ((say shown r)\<lparr>scan_var := Some (scan_results, error)\<rparr>)"
  have n1: "Ask_proceed \<notin> set (events ?r1)" using assms(1) ns by (simp add: say_def)
  show ?thesis
  proof (cases "truthy scan_results")
    case False
    then have "scan_and_report w t opts r = offer_proceed w t scan_results error ?r1"
      using rn assms(3) by (simp add: scan_and_report_def Let_def)
    then show ?thesis using offer_proceed_prompt[OF n1] False by simp
  next
    case True
    show ?thesis
    proof (cases "markup_error w (Scan_output (take 500 (py_str scan_results)))")
      case (Some m)
      then have "scan_and_report w t opts r
                   = (say [Scan_output_label] ?r1)\<lparr>ending := Raised (MarkupError m)\<rparr>"
        using rn assms(3) True by (simp add: scan_and_report_def Let_def)
      then show ?thesis using n1 Some by (simp add: say_def)
    next
      case None
      let ?r2 = "say [Scan_output_label, Scan_output (take 500 (py_str scan_results))] ?r1"
      have n2: "Ask_proceed \<notin> set (events ?r2)" using n1 by (simp add: say_def)
      have "scan_and_report w t opts r = offer_proceed w t scan_results error ?r2"
        using rn assms(3) True None by (simp add: scan_and_report_def Let_def)
      then show ?thesis using offer_proceed_prompt[OF n2] None by simp
    qed
  qed
qed

lemma scan_and_report_events: "\<exists>es. events (scan_and_report w t opts r) = events r @ es"
proof -
  have a: "\<exists>es. events (offer_proceed w t s e r') = events r @ es"
    if "\<exists>es. events r' = events r @ es" for s e r'
    using that offer_proceed_events[of w t s e r'] by auto
  show ?thesis
    by (auto simp: scan_and_report_def say_def Let_def
             intro!: report_events_trans a split: prod.splits sum.splits option.splits)
qed

lemma scan_and_report_shape:
  assumes stop: "\<And>r'. files r' = files r \<Longrightarrow> filename_var r' = filename_var r
                   \<Longrightarrow> analysis_var r' = analysis_var r
                   \<Longrightarrow> ending r' = ending r \<or> ending r' = Raised EOFError
                        \<or> (\<exists>m. ending r' = Raised (MarkupError m)) \<Longrightarrow> P r'"
    and rep: "\<And>r' out error.
                   fst (run_nmap (markup_error w) (nmap w) t opts) = Inr (Some out, error)
                   \<Longrightarrow> out \<noteq> [] \<Longrightarrow> files r' = files r \<Longrightarrow> filename_var r' = filename_var r
                   \<Longrightarrow> ending r' = ending r \<Longrightarrow> P (report w t (Some out) r')"
  shows "P (scan_and_report w t opts r)"
proof (cases "run_nmap (markup_error w) (nmap w) t opts")
  case (Pair res shown)
  show ?thesis
  proof (cases res)
    case (Inl e)
    then have eq: "scan_and_report w t opts r = (say shown r)\<lparr>ending := Raised e\<rparr>"
      using Pair by (simp add: scan_and_report_def)
    have "\<exists>m. e = MarkupError m"
      using Pair Inl
      by (auto simp: run_nmap_def except_exception_def Let_def
               split: option.splits proc_result.splits if_splits prod.splits)
    then show ?thesis
      using stop[of "(say shown r)\<lparr>ending := Raised e\<rparr>"] eq by (auto simp: say_def)
  next
    case (Inr returned)
    obtain sr err where ret: "returned = (sr, err)" by (cases returned)
    have rn: "run_nmap (markup_error w) (nmap w) t opts = (Inr (sr, err), shown)"
      using Pair Inr ret by simp
    define r1 where "r1 = (say shown r)\<lparr>scan_var := Some (sr, err)\<rparr>"
    define r2 where "r2 = say [Scan_failed_banner] r1"
    have f1: "files r1 = files r" "filename_var r1 = filename_var r"
      "analysis_var r1 = analysis_var r" "ending r1 = ending r"
      by (simp_all add: r1_def say_def)
    have f2: "files r2 = files r" "filename_var r2 = filename_var r"
      "analysis_var r2 = analysis_var r" "ending r2 = ending r"
      by (simp_all add: r2_def say_def f1)
    have rp: "P (report w t sr r')" if tr: "truthy sr" and fr: "files r' = files r"
      "filename_var r' = filename_var r" "ending r' = ending r" for r'
    proof -
      obtain out where "sr = Some out" "out \<noteq> []" using truthy_Some[OF tr] by blast
      then show ?thesis using rep[of out err r'] rn fr by simp
    qed
    have op: "P (offer_proceed w t sr err r')" if fr: "files r' = files r"
      "filename_var r' = filename_var r" "analysis_var r' = analysis_var r"
      "ending r' = ending r" for r'
    proof (rule offer_proceed_shape)
      fix r'' :: run
      assume "files r'' = files r'" "filename_var r'' = filename_var r'"
        "analysis_var r'' = analysis_var r'" "ending r'' = ending r' \<or> ending r'' = Raised EOFError"
      then show "P r''" using stop[of r''] fr by auto
    next
      fix r'' :: run
      assume "truthy sr" "files r'' = files r'" "filename_var r'' = filename_var r'"
        "ending r'' = ending r'"
      then show "P (report w t sr r'')" using rp[of r''] fr by simp
    qed
    show ?thesis
    proof (cases "\<not> truthy sr \<or> truthy err")
      case False
      then have "scan_and_report w t opts r = report w t sr r1"
        using rn by (simp add: scan_and_report_def r1_def Let_def)
      then show ?thesis using rp[of r1] False f1 by simp
    next
      case failed: True
      show ?thesis
      proof (cases "truthy sr")
        case False
        then have "scan_and_report w t opts r = offer_proceed w t sr err r2"
          using rn failed by (simp add: scan_and_report_def r1_def r2_def Let_def)
        then show ?thesis using op[of r2] f2 by simp
      next
        case True
        show ?thesis
        proof (cases "markup_error w (Scan_output (take 500 (py_str sr)))")
          case (Some m)
          let ?r3 = "(say [Scan_output_label] r2)\<lparr>ending := Raised (MarkupError m)\<rparr>"
          have "scan_and_report w t opts r = ?r3"
            using rn failed True Some by (simp add: scan_and_report_def r1_def r2_def Let_def)
          then show ?thesis using stop[of ?r3] f2 by (simp add: say_def)
        next
          case None
          let ?r3 = "say [Scan_output_label, Scan_output (take 500 (py_str sr))] r2"
          have "scan_and_report w t opts r = offer_proceed w t sr err ?r3"
            using rn failed True None by (simp add: scan_and_report_def r1_def r2_def Let_def)
          then show ?thesis using op[of ?r3] f2 by (simp add: say_def)
        qed
      qed
    qed
  qed
qed

lemma scannedI:
  "before_scan w target options r \<Longrightarrow> scanned w (scan_and_report w target options r)"
  unfolding scanned_def by blast


lemma stopped_early_say:
  "stopped_early w r \<Longrightarrow> Ask_proceed \<notin> set es \<Longrightarrow> stopped_early w (say es r)"
  by (simp add: stopped_early_def say_def)

lemma say_frame: "ending (say es r) = ending r \<and> target_var (say es r) = target_var r"
  by (simp add: say_def)

lemma ask_shape:
  assumes q: "stopped_early w r" and e: "e \<noteq> Ask_proceed"
    and k: "\<And>line r'. stopped_early w r' \<Longrightarrow> ending r' = ending r
               \<Longrightarrow> target_var r' = target_var r \<Longrightarrow> P (k line r')"
    and stop: "\<And>r'. stopped_early w r' \<Longrightarrow> P r'"
  shows "P (ask e r k)"
proof (cases "pending r")
  case Nil
  have "stopped_early w ((say [e] r)\<lparr>ending := Raised EOFError\<rparr>)"
    using q e by (simp add: stopped_early_def say_def)
  then show ?thesis using Nil stop by (simp add: ask_def)
next
  case (Cons line rest)
  have "stopped_early w ((say [e] r)\<lparr>pending := rest\<rparr>)"
    using q e by (simp add: stopped_early_def say_def)
  then have "P (k line ((say [e] r)\<lparr>pending := rest\<rparr>))"
    by (rule k) (simp_all add: say_def)
  then show ?thesis using Cons by (simp add: ask_def)
qed

lemma build_options_shape:
  assumes q: "stopped_early w r"
    and k: "\<And>opts r'. stopped_early w r' \<Longrightarrow> ending r' = ending r
               \<Longrightarrow> target_var r' = target_var r \<Longrightarrow> ''-Pn'' \<in> set opts \<Longrightarrow> P (k opts r')"
    and stop: "\<And>r'. stopped_early w r' \<Longrightarrow> P r'"
  shows "P (build_options split choice r k)"
proof -
  consider (quick) "choice = ''1''" | (full) "choice = ''2''" | (aggressive) "choice = ''3''"
    | (ports) "choice = ''4''" | (custom) "choice = ''5''"
    | (invalid) "choice \<notin> {''1'', ''2'', ''3'', ''4'', ''5''}"
    by blast
  then show ?thesis
  proof cases
    case quick
    have "P (k [''-Pn'', ''-sV'', ''-sC'', ''-T4''] r)" by (rule k) (simp_all add: q)
    then show ?thesis using quick by (simp add: build_options_def)
  next
    case full
    have "P (k [''-Pn'', ''-sV'', ''-sC'', ''-p-'', ''-T4''] (say [Warn_all_ports] r))"
      by (rule k) (simp_all add: q stopped_early_say say_frame)
    then show ?thesis using full by (simp add: build_options_def)
  next
    case aggressive
    have "P (k [''-Pn'', ''-A'', ''-T4''] r)" by (rule k) (simp_all add: q)
    then show ?thesis using aggressive by (simp add: build_options_def)
  next
    case ports
    have "P (ask Ask_ports r (\<lambda>line.
          let ports = strip line;
              ports = (if ports = [] then ''1-10000'' else ports)
          in k [''-Pn'', ''-sV'', ''-sC'', ''-p'' @ ports, ''-T4'']))"
      using q
    proof (rule ask_shape)
      show "Ask_ports \<noteq> Ask_proceed" by simp
    next
      fix line r'
      assume "stopped_early w r'" "ending r' = ending r" "target_var r' = target_var r"
      then show "P ((let ports = strip line;
              ports = (if ports = [] then ''1-10000'' else ports)
          in k [''-Pn'', ''-sV'', ''-sC'', ''-p'' @ ports, ''-T4'']) r')"
        by (simp add: Let_def k)
    next
      fix r' assume "stopped_early w r'" then show "P r'" by (rule stop)
    qed
    then show ?thesis using ports by (simp add: build_options_def)
  next
    case custom
    have "P (ask Ask_flags (say [Custom_hint] r) (\<lambda>line r.
          let custom_flags = strip line
          in if custom_flags \<noteq> [] then
               (case split custom_flags of
                  Inl msg \<Rightarrow> r\<lparr>ending := Raised (ValueError msg)\<rparr>
                | Inr options \<Rightarrow>
                    k (if ''-Pn'' \<in> set options then options else ''-Pn'' # options) r)
             else k [''-Pn'', ''-sV'', ''-sC''] r))"
    proof (rule ask_shape)
      show "stopped_early w (say [Custom_hint] r)" using q by (simp add: stopped_early_say)
      show "Ask_flags \<noteq> Ask_proceed" by simp
    next
      fix line r'
      assume a: "stopped_early w r'" "ending r' = ending (say [Custom_hint] r)"
        "target_var r' = target_var (say [Custom_hint] r)"
      then have b: "ending r' = ending r" "target_var r' = target_var r"
        by (simp_all add: say_frame)
      have c: "\<And>msg. stopped_early w (r'\<lparr>ending := Raised (ValueError msg)\<rparr>)"
        using a(1) by (simp add: stopped_early_def)
      show "P (let custom_flags = strip line
          in if custom_flags \<noteq> [] then
               (case split custom_flags of
                  Inl msg \<Rightarrow> r'\<lparr>ending := Raised (ValueError msg)\<rparr>
                | Inr options \<Rightarrow>
                    k (if ''-Pn'' \<in> set options then options else ''-Pn'' # options) r')
             else k [''-Pn'', ''-sV'', ''-sC''] r')"
        using a(1) b c by (auto simp: Let_def intro: k stop split: sum.splits)
    next
      fix r' assume "stopped_early w r'" then show "P r'" by (rule stop)
    qed
    then show ?thesis using custom by (simp add: build_options_def)
  next
    case invalid
    have "P (k [''-Pn'', ''-sV'', ''-sC'', ''-p-'', ''-T4''] (say [Invalid_choice] r))"
      by (rule k) (simp_all add: q stopped_early_say say_frame)
    then show ?thesis using invalid by (simp add: build_options_def)
  qed
qed

lemma main_shape: "stopped_early w (main w) \<or> scanned w (main w)"
proof -
  let ?P = "\<lambda>r'. stopped_early w r' \<or> scanned w r'"
  let ?K = "\<lambda>target r.
       let r = r\<lparr>target_var := Some target\<rparr>
       in if target = [] then say [No_target] r
       else
         ask Ask_choice (say [Menu] r) (\<lambda>line r.
           let choice = (if strip line = [] then ''2'' else strip line)
           in build_options (shlex_split w) choice r (\<lambda>options r.
                let options = dict_fromkeys options
                in scan_and_report w target options (r\<lparr>options_var := Some options\<rparr>)))"
  have K: "?P (?K target r)" if q: "stopped_early w r" and e: "ending r = Returned"
    for target r
  proof (cases "target = []")
    case True
    have "stopped_early w (say [No_target] (r\<lparr>target_var := Some target\<rparr>))"
      using q by (simp add: stopped_early_def say_def)
    then show ?thesis using True by (simp add: Let_def)
  next
    case False
    let ?r = "say [Menu] (r\<lparr>target_var := Some target\<rparr>)"
    have q1: "stopped_early w ?r" using q by (simp add: stopped_early_def say_def)
    have e1: "ending ?r = Returned" "target_var ?r = Some target"
      using e by (simp_all add: say_def)
    have "?P (ask Ask_choice ?r (\<lambda>line r.
           let choice = (if strip line = [] then ''2'' else strip line)
           in build_options (shlex_split w) choice r (\<lambda>options r.
                let options = dict_fromkeys options
                in scan_and_report w target options (r\<lparr>options_var := Some options\<rparr>))))"
      using q1
    proof (rule ask_shape)
      show "Ask_choice \<noteq> Ask_proceed" by simp
    next
      fix line r'
      assume a: "stopped_early w r'" "ending r' = ending ?r" "target_var r' = target_var ?r"
      have "?P (build_options (shlex_split w) (if strip line = [] then ''2'' else strip line) r'
               (\<lambda>options r.
                let options = dict_fromkeys options
                in scan_and_report w target options (r\<lparr>options_var := Some options\<rparr>)))"
        using a(1)
      proof (rule build_options_shape)
        fix opts r''
        assume b: "stopped_early w r''" "ending r'' = ending r'"
          "target_var r'' = target_var r'" "''-Pn'' \<in> set opts"
        have "before_scan w target (dict_fromkeys opts)
                (r''\<lparr>options_var := Some (dict_fromkeys opts)\<rparr>)"
          using b a(2,3) e1 False
          by (simp add: before_scan_def stopped_early_def set_dict_fromkeys
                        distinct_dict_fromkeys)
        then have "scanned w (scan_and_report w target (dict_fromkeys opts)
                (r''\<lparr>options_var := Some (dict_fromkeys opts)\<rparr>))"
          by (rule scannedI)
        then show "?P (let options = dict_fromkeys opts
                in scan_and_report w target options (r''\<lparr>options_var := Some options\<rparr>))"
          by (simp add: Let_def)
      next
        fix r'' assume "stopped_early w r''"
        then show "?P r''" by simp
      qed
      then show "?P (let choice = (if strip line = [] then ''2'' else strip line)
           in build_options (shlex_split w) choice r' (\<lambda>options r.
                let options = dict_fromkeys options
                in scan_and_report w target options (r\<lparr>options_var := Some options\<rparr>)))"
        by (simp add: Let_def)
    next
      fix r' assume "stopped_early w r'" then show "?P r'" by simp
    qed
    then show ?thesis using False by (simp add: Let_def)
  qed
  have q0: "stopped_early w (say [Banner] (start w))"
    by (simp add: stopped_early_def say_def start_def)
  have e0: "ending (say [Banner] (start w)) = Returned"
    by (simp add: say_def start_def)
  have "?P (get_target w (say [Banner] (start w)) ?K)"
  proof (cases "length (argv w) > 1")
    case True
    have "?P (?K (argv w ! 1) (say [Banner] (start w)))" by (rule K[OF q0 e0])
    then show ?thesis unfolding get_target_def using True by (simp only: if_True)
  next
    case False
    have "?P (ask Ask_target (say [Banner] (start w)) (\<lambda>line. ?K (strip line)))"
      using q0
    proof (rule ask_shape)
      show "Ask_target \<noteq> Ask_proceed" by simp
    next
      fix line r'
      assume "stopped_early w r'" "ending r' = ending (say [Banner] (start w))"
      then show "?P (?K (strip line) r')" using K e0 by simp
    next
      fix r' assume "stopped_early w r'" then show "?P r'" by simp
    qed
    then show ?thesis unfolding get_target_def using False by (simp only: if_False)
  qed
  then show ?thesis unfolding main_def .
qed

lemma scan_and_report_no_analysis:
  assumes "fst (run_nmap (markup_error w) (nmap w) t opts) = Inr (scan_results, error)"
    and "\<not> truthy scan_results \<or> truthy error"
    and "\<not> (truthy scan_results \<and> \<not> contains (py_str error) ''No open ports''
             \<and> markup_error w (Scan_output (take 500 (py_str scan_results))) = None)"
  shows "analysis_var (scan_and_report w t opts r) = analysis_var r
         \<and> files (scan_and_report w t opts r) = files r
         \<and> filename_var (scan_and_report w t opts r) = filename_var r"
proof -
  obtain shown where rn: "run_nmap (markup_error w) (nmap w) t opts
                            = (Inr (scan_results, error), shown)"
    using assms(1) by (cases "run_nmap (markup_error w) (nmap w) t opts") simp
  show ?thesis
    using rn assms(2,3)
    by (auto simp: scan_and_report_def offer_proceed_def say_def Let_def
             split: option.splits)
qed

text \<open>What \<open>run_nmap\<close> returns where the outputs it prints on its way do not raise.\<close>

lemma run_nmap_returns:
  assumes "rich (Running (join '' '' ([''nmap''] @ options @ [target]))) = None"
  shows "(scanner ([''nmap''] @ options @ [target]) = Timeout_expired
           \<longrightarrow> fst (run_nmap rich scanner target options) = Inr (None, Some ''Timeout''))
         \<and> (scanner ([''nmap''] @ options @ [target]) = Completed returncode out err
              \<and> returncode \<noteq> 0 \<and> (err = [] \<or> rich (Stderr_text err) = None)
           \<longrightarrow> fst (run_nmap rich scanner target options) = Inr (None, Some ''Scan failed''))
         \<and> (scanner ([''nmap''] @ options @ [target]) = Launch_error e
              \<and> rich (Scan_error e) = None
           \<longrightarrow> fst (run_nmap rich scanner target options) = Inr (None, Some e))
         \<and> (scanner ([''nmap''] @ options @ [target]) = Completed 0 out err
              \<and> fst (check_scan_results (Some out))
           \<longrightarrow> fst (run_nmap rich scanner target options) = Inr (Some out, None))
         \<and> (scanner ([''nmap''] @ options @ [target]) = Completed 0 out err
              \<and> \<not> fst (check_scan_results (Some out))
           \<longrightarrow> fst (run_nmap rich scanner target options)
                 = Inr (Some out, Some (snd (check_scan_results (Some out)))))"
  using assms
  by (auto simp: run_nmap_def except_exception_def Let_def split: prod.splits)

section \<open>The claims\<close>

text \<open>
  Claim C1, as the code has it. The claim says that the prompt to proceed is offered where
  the failure reason is of the kind "no open ports", and skipped otherwise. The code tests
  the opposite: on the sample with filtered ports only the reason is
  \<open>No open ports found (all ports closed/filtered)\<close> and the run ends with no prompt and no
  analysis, and on the sample of a host that seems down the prompt is offered.
\<close>

theorem proceed_prompt_counterexample:
  "scan_var (main w_filtered)
     = Some (Some sample_filtered, Some ''No open ports found (all ports closed/filtered)'')
   \<and> sample_filtered \<noteq> []
   \<and> Ask_proceed \<notin> set (events (main w_filtered))
   \<and> analysis_var (main w_filtered) = None
   \<and> scan_var (main w_down) = Some (Some sample_down, Some ''Host appears down (try -Pn flag)'')
   \<and> Ask_proceed \<in> set (events (main w_down))"
  by code_simp

text \<open>
  Claim C1, amended. After a scan that \<open>run_nmap\<close> returned as failed (no raw text, or an
  error), and where the print of the output's first 500 characters (line 202) does not
  raise, the prompt to proceed is offered exactly when the raw text is not empty and the
  failure reason does not contain \<open>No open ports\<close>. Where it is not offered the run has no
  analysis and leaves the disk as it was. After a timeout, an exit code other than zero or
  an exception of the launch there is no raw text, so the prompt is skipped. What follows a
  \<open>MarkupError\<close> of line 202 is left out of this statement (lemma
  \<open>scan_output_markup_error\<close> below runs such an input).
\<close>

theorem proceed_prompt:
  assumes "scan_var (main w) = Some (scan_results, error)"
    and "\<not> truthy scan_results \<or> truthy error"
    and "truthy scan_results
         \<Longrightarrow> markup_error w (Scan_output (take 500 (py_str scan_results))) = None"
  shows "(Ask_proceed \<in> set (events (main w))
            \<longleftrightarrow> truthy scan_results \<and> \<not> contains (py_str error) ''No open ports'')
         \<and> (Ask_proceed \<notin> set (events (main w))
            \<longrightarrow> analysis_var (main w) = None \<and> files (main w) = disk w
                \<and> filename_var (main w) = None)
         \<and> (\<exists>target options. target_var (main w) = Some target
              \<and> options_var (main w) = Some options
              \<and> fst (run_nmap (markup_error w) (nmap w) target options)
                  = Inr (scan_results, error)
              \<and> (nmap w ([''nmap''] @ options @ [target]) = Timeout_expired
                   \<or> (\<exists>e. nmap w ([''nmap''] @ options @ [target]) = Launch_error e)
                   \<or> (\<exists>returncode out err.
                         nmap w ([''nmap''] @ options @ [target]) = Completed returncode out err
                         \<and> returncode \<noteq> 0)
                  \<longrightarrow> scan_results = None \<and> Ask_proceed \<notin> set (events (main w))))"
proof -
  from main_shape[of w] assms(1) obtain t opts r where
    b: "before_scan w t opts r" and m: "main w = scan_and_report w t opts r"
    by (auto simp: stopped_early_def scanned_def)
  have rn: "fst (run_nmap (markup_error w) (nmap w) t opts) = Inr (scan_results, error)"
    using assms(1) m b scan_and_report_frame[of w t opts r]
    by (cases "fst (run_nmap (markup_error w) (nmap w) t opts)")
       (simp_all add: before_scan_def)
  have np: "Ask_proceed \<notin> set (events r)" using b by (simp add: before_scan_def)
  have 1: "Ask_proceed \<in> set (events (main w))
            \<longleftrightarrow> truthy scan_results \<and> \<not> contains (py_str error) ''No open ports''"
    using scan_and_report_prompt[OF np rn assms(2)] assms(3) m by auto
  have 2: "analysis_var (main w) = None \<and> files (main w) = disk w
                \<and> filename_var (main w) = None"
    if "Ask_proceed \<notin> set (events (main w))"
    using scan_and_report_no_analysis[OF rn assms(2), of r] that 1 m b
    by (simp add: before_scan_def)
  have tv: "target_var (main w) = Some t" "options_var (main w) = Some opts"
    using m scan_and_report_frame[of w t opts r] b by (simp_all add: before_scan_def)
  have 3: "scan_results = None \<and> Ask_proceed \<notin> set (events (main w))"
    if "nmap w ([''nmap''] @ opts @ [t]) = Timeout_expired
          \<or> (\<exists>e. nmap w ([''nmap''] @ opts @ [t]) = Launch_error e)
          \<or> (\<exists>returncode out err.
                nmap w ([''nmap''] @ opts @ [t]) = Completed returncode out err
                \<and> returncode \<noteq> 0)"
  proof -
    have "scan_results = None" using run_nmap_no_text[OF rn that] .
    then show ?thesis using 1 by (simp add: truthy_def)
  qed
  show ?thesis using 1 2 3 tv rn by auto
qed

theorem proceed_prompt_witness:
  "scan_var (main w_timeout) = Some (None, Some ''Timeout'')
   \<and> Ask_proceed \<notin> set (events (main w_timeout))
   \<and> analysis_var (main w_timeout) = None
   \<and> scan_var (main w_down) = Some (Some sample_down, Some ''Host appears down (try -Pn flag)'')
   \<and> \<not> contains ''Host appears down (try -Pn flag)'' ''No open ports''
   \<and> markup_error w_down (Scan_output (take 500 sample_down)) = None
   \<and> Ask_proceed \<in> set (events (main w_down))
   \<and> scan_var (main w_filtered)
       = Some (Some sample_filtered, Some ''No open ports found (all ports closed/filtered)'')
   \<and> contains ''No open ports found (all ports closed/filtered)'' ''No open ports''
   \<and> Ask_proceed \<notin> set (events (main w_filtered))
   \<and> files (main w_filtered) = Map.empty"
proof -
  have a: "scan_var (main w_timeout) = Some (None, Some ''Timeout'')" by code_simp
  have a': "\<not> truthy None \<or> truthy (Some ''Timeout'')" by (simp add: truthy_def)
  have a2: "Ask_proceed \<notin> set (events (main w_timeout))
            \<and> analysis_var (main w_timeout) = None"
    using proceed_prompt[OF a a'] by (simp add: truthy_def)
  have b: "scan_var (main w_down)
             = Some (Some sample_down, Some ''Host appears down (try -Pn flag)'')"
    by code_simp
  have b': "\<not> truthy (Some sample_down) \<or> truthy (Some ''Host appears down (try -Pn flag)'')"
    by (simp add: truthy_def)
  have b1: "truthy (Some sample_down)" by code_simp
  have b2: "\<not> contains ''Host appears down (try -Pn flag)'' ''No open ports''" by code_simp
  have bm: "markup_error w_down (Scan_output (take 500 (py_str (Some sample_down)))) = None"
    by (simp add: w_down_def world_of_def)
  have bm': "markup_error w_down (Scan_output (take 500 sample_down)) = None"
    by (simp add: w_down_def world_of_def)
  have b3: "Ask_proceed \<in> set (events (main w_down))"
    using proceed_prompt[OF b b' bm] b1 b2 by (simp add: py_str_def)
  have c: "scan_var (main w_filtered)
     = Some (Some sample_filtered, Some ''No open ports found (all ports closed/filtered)'')"
    by code_simp
  have c': "\<not> truthy (Some sample_filtered)
            \<or> truthy (Some ''No open ports found (all ports closed/filtered)'')"
    by (simp add: truthy_def)
  have c2: "contains ''No open ports found (all ports closed/filtered)'' ''No open ports''"
    by code_simp
  have cm: "markup_error w_filtered (Scan_output (take 500 (py_str (Some sample_filtered))))
              = None"
    by (simp add: w_filtered_def world_of_def)
  have d: "disk w_filtered = Map.empty" by (simp add: w_filtered_def world_of_def)
  have c3: "Ask_proceed \<notin> set (events (main w_filtered))
            \<and> files (main w_filtered) = Map.empty"
    using proceed_prompt[OF c c' cm] c2 d by (simp add: py_str_def)
  from a a2 b b2 bm' b3 c c2 c3 show ?thesis by blast
qed

text \<open>
  Claim C2. The validator decides in a fixed order, on every input. First: no text, or
  fewer than 50 characters once trimmed, gives failed with \<open>Scan produced no output\<close>.
  Second: a host-down indicator gives failed with \<open>Host appears down (try -Pn flag)\<close>,
  whatever else the text holds, open ports included. Third: one or more open-port matches
  give succeeded. Fourth: a mention of \<open>filtered\<close> or \<open>closed\<close> gives failed with
  \<open>No open ports found (all ports closed/filtered)\<close>. Otherwise: failed with
  \<open>No ports detected in scan output\<close>.
\<close>

theorem check_scan_results_priority:
  "(scan_output = None \<or> (\<exists>t. scan_output = Some t \<and> length (strip t) < 50)
      \<longrightarrow> check_scan_results scan_output = (False, ''Scan produced no output''))
   \<and> (50 \<le> length (strip s)
        \<and> (contains s ''Host seems down'' \<or> contains s ''0 hosts up'')
      \<longrightarrow> check_scan_results (Some s) = (False, ''Host appears down (try -Pn flag)''))
   \<and> (50 \<le> length (strip s)
        \<and> \<not> contains s ''Host seems down'' \<and> \<not> contains s ''0 hosts up''
        \<and> findall s \<noteq> []
      \<longrightarrow> fst (check_scan_results (Some s)))
   \<and> (50 \<le> length (strip s)
        \<and> \<not> contains s ''Host seems down'' \<and> \<not> contains s ''0 hosts up''
        \<and> findall s = []
        \<and> (contains (lower s) ''filtered'' \<or> contains (lower s) ''closed'')
      \<longrightarrow> check_scan_results (Some s)
            = (False, ''No open ports found (all ports closed/filtered)''))
   \<and> (50 \<le> length (strip s)
        \<and> \<not> contains s ''Host seems down'' \<and> \<not> contains s ''0 hosts up''
        \<and> findall s = []
        \<and> \<not> contains (lower s) ''filtered'' \<and> \<not> contains (lower s) ''closed''
      \<longrightarrow> check_scan_results (Some s) = (False, ''No ports detected in scan output''))"
proof -
  have ne: "50 \<le> length (strip s) \<Longrightarrow> s \<noteq> []" by (auto simp: strip_def)
  have 1: "scan_output = None \<or> (\<exists>t. scan_output = Some t \<and> length (strip t) < 50)
      \<longrightarrow> check_scan_results scan_output = (False, ''Scan produced no output'')"
    by (auto simp: check_scan_results_def)
  have 2: "50 \<le> length (strip s)
        \<and> (contains s ''Host seems down'' \<or> contains s ''0 hosts up'')
      \<longrightarrow> check_scan_results (Some s) = (False, ''Host appears down (try -Pn flag)'')"
    using ne by (auto simp: check_scan_results_def)
  have 3: "50 \<le> length (strip s)
        \<and> \<not> contains s ''Host seems down'' \<and> \<not> contains s ''0 hosts up''
        \<and> findall s \<noteq> []
      \<longrightarrow> fst (check_scan_results (Some s))"
    using ne by (auto simp: check_scan_results_def Let_def)
  have 4: "50 \<le> length (strip s)
        \<and> \<not> contains s ''Host seems down'' \<and> \<not> contains s ''0 hosts up''
        \<and> findall s = []
        \<and> (contains (lower s) ''filtered'' \<or> contains (lower s) ''closed'')
      \<longrightarrow> check_scan_results (Some s)
            = (False, ''No open ports found (all ports closed/filtered)'')"
    using ne by (auto simp: check_scan_results_def Let_def)
  have 5: "50 \<le> length (strip s)
        \<and> \<not> contains s ''Host seems down'' \<and> \<not> contains s ''0 hosts up''
        \<and> findall s = []
        \<and> \<not> contains (lower s) ''filtered'' \<and> \<not> contains (lower s) ''closed''
      \<longrightarrow> check_scan_results (Some s) = (False, ''No ports detected in scan output'')"
    using ne by (auto simp: check_scan_results_def Let_def)
  from 1 2 3 4 5 show ?thesis by blast
qed

theorem check_scan_results_priority_witness:
  "check_scan_results None = (False, ''Scan produced no output'')
   \<and> check_scan_results (Some ''80/tcp open  http'') = (False, ''Scan produced no output'')
   \<and> findall sample_down \<noteq> []
   \<and> check_scan_results (Some sample_down) = (False, ''Host appears down (try -Pn flag)'')
   \<and> fst (check_scan_results (Some sample_open))
   \<and> check_scan_results (Some sample_filtered)
       = (False, ''No open ports found (all ports closed/filtered)'')
   \<and> check_scan_results (Some sample_nothing) = (False, ''No ports detected in scan output'')"
proof -
  note p = check_scan_results_priority
  have a: "check_scan_results None = (False, ''Scan produced no output'')"
    using p[of None "[]"] by blast
  have "length (strip ''80/tcp open  http'') < 50" by code_simp
  then have b: "check_scan_results (Some ''80/tcp open  http'')
                  = (False, ''Scan produced no output'')"
    using p[of "Some ''80/tcp open  http''" "[]"] by blast
  have c: "findall sample_down \<noteq> []" by code_simp
  have "50 \<le> length (strip sample_down) \<and> contains sample_down ''Host seems down''"
    by code_simp
  then have d: "check_scan_results (Some sample_down)
                  = (False, ''Host appears down (try -Pn flag)'')"
    using p[of None sample_down] by blast
  have "50 \<le> length (strip sample_open) \<and> \<not> contains sample_open ''Host seems down''
          \<and> \<not> contains sample_open ''0 hosts up'' \<and> findall sample_open \<noteq> []"
    by code_simp
  then have e: "fst (check_scan_results (Some sample_open))"
    using p[of None sample_open] by blast
  have "50 \<le> length (strip sample_filtered) \<and> \<not> contains sample_filtered ''Host seems down''
          \<and> \<not> contains sample_filtered ''0 hosts up'' \<and> findall sample_filtered = []
          \<and> contains (lower sample_filtered) ''filtered''"
    by code_simp
  then have f: "check_scan_results (Some sample_filtered)
                  = (False, ''No open ports found (all ports closed/filtered)'')"
    using p[of None sample_filtered] by blast
  have "50 \<le> length (strip sample_nothing) \<and> \<not> contains sample_nothing ''Host seems down''
          \<and> \<not> contains sample_nothing ''0 hosts up'' \<and> findall sample_nothing = []
          \<and> \<not> contains (lower sample_nothing) ''filtered''
          \<and> \<not> contains (lower sample_nothing) ''closed''"
    by code_simp
  then have g: "check_scan_results (Some sample_nothing)
                  = (False, ''No ports detected in scan output'')"
    using p[of None sample_nothing] by blast
  from a b c d e f g show ?thesis by blast
qed

text \<open>
  Claim C3. Let a scan output have at least 50 trimmed characters, no host-down indicator
  and somewhere a numeric port followed by \<open>/tcp\<close>, whitespace and \<open>open\<close>. Then the
  matches of the pattern in the output, as \<open>port_matches\<close> reads them from the left, are
  one list of ports, not empty and the only one; the validator classifies the output as
  succeeded; and its reason is \<open>Found n open port(s): \<close> followed by exactly these ports,
  in this order and separated by \<open>, \<close>, where \<open>n\<close> is the decimal writing of their number.
  A port that matches twice is counted and listed twice. The witness runs the output with
  \<open>80/tcp open\<close> and then \<open>22/tcp open\<close> (\<open>Found 2 open port(s): 80, 22\<close>) and one with
  three open ports before a closed one (\<open>Found 3 open port(s): 21, 22, 80\<close>).
\<close>

theorem check_scan_results_open_ports:
  assumes "50 \<le> length (strip s)"
    and "\<not> contains s ''Host seems down''" and "\<not> contains s ''0 hosts up''"
    and "port_pattern port ws m" and "s = pre @ m @ post"
  shows "\<exists>ports. port_matches s ports \<and> ports \<noteq> []
           \<and> (\<forall>others. port_matches s others \<longrightarrow> others = ports)
           \<and> check_scan_results (Some s)
               = (True, ''Found '' @ str_nat (length ports) @ '' open port(s): ''
                          @ join '', '' ports)
           \<and> decimal_value (str_nat (length ports)) = length ports"
proof -
  have "findall (pre @ port @ ''/tcp'' @ ws @ ''open'' @ post) \<noteq> []"
    using assms(4) findall_complete[of port ws pre post] by (simp add: port_pattern_def)
  then have f: "findall s \<noteq> []" using assms(4,5) by (simp add: port_pattern_def)
  have "s \<noteq> []" using assms(1) by (auto simp: strip_def)
  then have "check_scan_results (Some s)
             = (True, ''Found '' @ str_nat (length (findall s)) @ '' open port(s): ''
                        @ join '', '' (findall s))"
    using f assms(1-3) by (simp add: check_scan_results_def Let_def)
  then show ?thesis
    using f findall_port_matches[of s] port_matches_findall[of s]
      str_nat_decimal[of "length (findall s)"]
    by blast
qed

theorem check_scan_results_open_ports_witness:
  "port_matches sample_open [''80'', ''22'']
   \<and> check_scan_results (Some sample_open) = (True, ''Found 2 open port(s): 80, 22'')
   \<and> port_matches sample_three [''21'', ''22'', ''80'']
   \<and> check_scan_results (Some sample_three) = (True, ''Found 3 open port(s): 21, 22, 80'')"
proof -
  have h: "50 \<le> length (strip sample_open)"
    "\<not> contains sample_open ''Host seems down''" "\<not> contains sample_open ''0 hosts up''"
    by code_simp+
  have p: "port_pattern ''80'' '' '' ''80/tcp open''"
    unfolding port_pattern_def by code_simp
  have e: "sample_open = ''Nmap scan report for 10.10.10.5\<newline>PORT   STATE SERVICE\<newline>''
                     @ ''80/tcp open'' @ ''  http\<newline>22/tcp open  ssh\<newline>''"
    by code_simp
  from check_scan_results_open_ports[OF h p e] obtain ports where
    a: "port_matches sample_open ports"
       "check_scan_results (Some sample_open)
          = (True, ''Found '' @ str_nat (length ports) @ '' open port(s): '' @ join '', '' ports)"
    by blast
  have f: "findall sample_open = [''80'', ''22'']" by code_simp
  have ps: "ports = [''80'', ''22'']" using port_matches_findall[OF a(1)] f by simp
  have g: "''Found '' @ str_nat (length [''80'', ''22'']) @ '' open port(s): ''
            @ join '', '' [''80'', ''22''] = ''Found 2 open port(s): 80, 22''"
    by code_simp
  have r1: "port_matches sample_open [''80'', ''22'']
            \<and> check_scan_results (Some sample_open) = (True, ''Found 2 open port(s): 80, 22'')"
    using a ps g by simp
  have h3: "50 \<le> length (strip sample_three)"
    "\<not> contains sample_three ''Host seems down''" "\<not> contains sample_three ''0 hosts up''"
    by code_simp+
  have p3: "port_pattern ''21'' '' '' ''21/tcp open''"
    unfolding port_pattern_def by code_simp
  have e3: "sample_three = ''PORT   STATE SERVICE\<newline>'' @ ''21/tcp open''
              @ ''  ftp\<newline>22/tcp open  ssh\<newline>80/tcp   open  http\<newline>443/tcp closed https\<newline>''"
    by code_simp
  from check_scan_results_open_ports[OF h3 p3 e3] obtain ports3 where
    a3: "port_matches sample_three ports3"
       "check_scan_results (Some sample_three)
          = (True, ''Found '' @ str_nat (length ports3) @ '' open port(s): ''
                     @ join '', '' ports3)"
    by blast
  have f3: "findall sample_three = [''21'', ''22'', ''80'']" by code_simp
  have ps3: "ports3 = [''21'', ''22'', ''80'']" using port_matches_findall[OF a3(1)] f3 by simp
  have g3: "''Found '' @ str_nat (length [''21'', ''22'', ''80'']) @ '' open port(s): ''
            @ join '', '' [''21'', ''22'', ''80''] = ''Found 3 open port(s): 21, 22, 80''"
    by code_simp
  have r3: "port_matches sample_three [''21'', ''22'', ''80'']
            \<and> check_scan_results (Some sample_three)
                = (True, ''Found 3 open port(s): 21, 22, 80'')"
    using a3 ps3 g3 by simp
  from r1 r3 show ?thesis by blast
qed

text \<open>
  Claim C4, at an input where the code departs from it. The claim has \<open>run_nmap\<close> return
  no raw text and the reason \<open>Scan failed\<close> on an exit code other than zero, and never
  crash. With exit code 2 and the captured error text \<open>bad [/x] tag\<close> the print of line 54
  raises \<open>MarkupError\<close>; the handler of line 70 catches it and its own print (line 71), whose
  text quotes \<open>[/x]\<close>, raises again: \<open>run_nmap\<close> returns nothing, and \<open>main\<close> ends with this
  exception before \<open>scan_results\<close> is assigned. (Lemma \<open>run_nmap_returns\<close> above gives the
  five results of the claim for the inputs whose outputs print.)
\<close>

theorem run_nmap_markup_error:
  "nmap w_stderr [''nmap'', ''-Pn'', ''-sV'', ''-sC'', ''-T4'', ''10.10.10.5'']
     = Completed 2 [] ''bad [/x] tag''
   \<and> markup_error w_stderr (Stderr_text ''bad [/x] tag'')
       = Some ''closing tag '[/x]' at position 20 doesn't match any open tag''
   \<and> fst (run_nmap (markup_error w_stderr) (nmap w_stderr) ''10.10.10.5''
            [''-Pn'', ''-sV'', ''-sC'', ''-T4''])
       = Inl (MarkupError ''closing tag '[/x]' at position 32 doesn't match any open tag'')
   \<and> scan_var (main w_stderr) = None
   \<and> ending (main w_stderr)
       = Raised (MarkupError ''closing tag '[/x]' at position 32 doesn't match any open tag'')"
  by code_simp

text \<open>
  Claim C5. The analysis requester returns the generated text on status 200; on any other
  status the text \<open>Error: \<close> followed by the status code in decimal; on an exception of the
  request, or of reading the body, \<open>Error: \<close> followed by the exception's message; each of
  these error texts starts with the marker \<open>Error:\<close>. Whenever the analysis text of a run
  starts with this marker, the run shows the error last and returns, the disk is as it was
  before the run and no file name was assigned: no report is written.
\<close>

theorem analysis_error_ends_run:
  "(backend (prompt_of scan_results target) = Response 200 (Generated text)
      \<longrightarrow> fst (analyze_scan backend scan_results target) = text)
   \<and> (backend (prompt_of scan_results target) = Response status_code b \<and> status_code \<noteq> 200
      \<longrightarrow> fst (analyze_scan backend scan_results target) = ''Error: '' @ str_nat status_code)
   \<and> (backend (prompt_of scan_results target) = Request_error e
        \<or> backend (prompt_of scan_results target) = Response 200 (Bad_body e)
      \<longrightarrow> fst (analyze_scan backend scan_results target) = ''Error: '' @ e)
   \<and> startswith (''Error: '' @ x) ''Error:''
   \<and> (analysis_var (main w) = Some a \<and> startswith a ''Error:''
      \<longrightarrow> files (main w) = disk w \<and> filename_var (main w) = None
          \<and> ending (main w) = Returned \<and> last (events (main w)) = Analysis_error a)"
proof -
  have 1: "backend (prompt_of scan_results target) = Response 200 (Generated text)
      \<longrightarrow> fst (analyze_scan backend scan_results target) = text"
    by (simp add: analyze_scan_def)
  have 2: "backend (prompt_of scan_results target) = Response status_code b \<and> status_code \<noteq> 200
      \<longrightarrow> fst (analyze_scan backend scan_results target) = ''Error: '' @ str_nat status_code"
    by (simp add: analyze_scan_def)
  have 3: "backend (prompt_of scan_results target) = Request_error e
        \<or> backend (prompt_of scan_results target) = Response 200 (Bad_body e)
      \<longrightarrow> fst (analyze_scan backend scan_results target) = ''Error: '' @ e"
    by (auto simp: analyze_scan_def)
  have 4: "startswith (''Error: '' @ x) ''Error:''"
    by (simp add: startswith_def)
  have 5: "files (main w) = disk w \<and> filename_var (main w) = None
          \<and> ending (main w) = Returned \<and> last (events (main w)) = Analysis_error a"
    if av: "analysis_var (main w) = Some a" and er: "startswith a ''Error:''"
  proof -
    from main_shape[of w] av obtain t opts r where
      b: "before_scan w t opts r" and m: "main w = scan_and_report w t opts r"
      by (auto simp: stopped_early_def scanned_def)
    let ?P = "\<lambda>r'. analysis_var r' = Some a \<longrightarrow> files r' = disk w \<and> filename_var r' = None
          \<and> ending r' = Returned \<and> last (events r') = Analysis_error a"
    have "?P (scan_and_report w t opts r)"
    proof (rule scan_and_report_shape)
      fix r' :: run assume "analysis_var r' = analysis_var r"
      then show "?P r'" using b by (simp add: before_scan_def)
    next
      fix r' :: run and out error
      assume f: "files r' = files r" "filename_var r' = filename_var r" "ending r' = ending r"
      show "?P (report w t (Some out) r')"
      proof
        assume "analysis_var (report w t (Some out) r') = Some a"
        then have a: "fst (analyze_scan (ollama w) (Some out) t) = a"
          by (simp add: report_analysis)
        show "files (report w t (Some out) r') = disk w
              \<and> filename_var (report w t (Some out) r') = None
              \<and> ending (report w t (Some out) r') = Returned
              \<and> last (events (report w t (Some out) r')) = Analysis_error a"
          using report_error[of w "Some out" t r'] er a f b
          by (simp add: before_scan_def)
      qed
    qed
    then show ?thesis using m av by simp
  qed
  from 1 2 3 4 5 show ?thesis by blast
qed

theorem analysis_error_ends_run_witness:
  "fst (analyze_scan (\<lambda>p. Response 200 (Generated ''## Open ports'')) (Some sample_open)
         ''10.10.10.5'') = ''## Open ports''
   \<and> fst (analyze_scan (\<lambda>p. Response 500 (Bad_body [])) (Some sample_open) ''10.10.10.5'')
       = ''Error: 500''
   \<and> fst (analyze_scan (\<lambda>p. Request_error ''Connection refused'') (Some sample_open)
         ''10.10.10.5'') = ''Error: Connection refused''
   \<and> analysis_var (main w_500) = Some ''Error: 500''
   \<and> files (main w_500) = Map.empty \<and> filename_var (main w_500) = None
   \<and> ending (main w_500) = Returned
   \<and> last (events (main w_500)) = Analysis_error ''Error: 500''"
proof -
  note t = analysis_error_ends_run
  have a: "fst (analyze_scan (\<lambda>p. Response 200 (Generated ''## Open ports''))
             (Some sample_open) ''10.10.10.5'') = ''## Open ports''"
    using t[of "\<lambda>p. Response 200 (Generated ''## Open ports'')" "Some sample_open"
              "''10.10.10.5''" "''## Open ports''"]
    by simp
  have s500: "str_nat 500 = ''500''" by code_simp
  have b: "fst (analyze_scan (\<lambda>p. Response 500 (Bad_body [])) (Some sample_open)
             ''10.10.10.5'') = ''Error: 500''"
    using t[of "\<lambda>p. Response 500 (Bad_body [])" "Some sample_open" "''10.10.10.5''"
              _ 500 "Bad_body []"] s500
    by simp
  have c: "fst (analyze_scan (\<lambda>p. Request_error ''Connection refused'') (Some sample_open)
             ''10.10.10.5'') = ''Error: Connection refused''"
    using t[of "\<lambda>p. Request_error ''Connection refused''" "Some sample_open" "''10.10.10.5''"
              _ _ _ "''Connection refused''"]
    by simp
  have av: "analysis_var (main w_500) = Some ''Error: 500''" by code_simp
  have st: "startswith ''Error: 500'' ''Error:''" by code_simp
  have d: "disk w_500 = Map.empty" by (simp add: w_500_def world_of_def)
  have e: "files (main w_500) = Map.empty \<and> filename_var (main w_500) = None
           \<and> ending (main w_500) = Returned
           \<and> last (events (main w_500)) = Analysis_error ''Error: 500''"
    using t[of _ _ _ _ _ _ _ _ w_500 "''Error: 500''"] av st d by simp
  from a b c av e show ?thesis by blast
qed

text \<open>
  Claim C6. A mode input that is \<open>2\<close>, empty (it counts as \<open>2\<close>) or none of \<open>1\<close>, \<open>3\<close>, \<open>4\<close>,
  \<open>5\<close> once trimmed makes the option-building step pass on the full-scan list
  \<open>-Pn -sV -sC -p- -T4\<close> after a warning (the all-ports warning for mode 2, the
  invalid-choice warning otherwise); the list has no duplicate, the removal of duplicates
  leaves it as it is, and it is the value of \<open>options\<close> in every run that reads this mode
  input, with the target from the command line or typed.
\<close>

theorem full_scan_options:
  assumes c: "choice = (if strip line = [] then ''2'' else strip line)"
    and nc: "choice \<notin> {''1'', ''3'', ''4'', ''5''}"
  shows "build_options split choice r k
           = k [''-Pn'', ''-sV'', ''-sC'', ''-p-'', ''-T4'']
               (say [if choice = ''2'' then Warn_all_ports else Invalid_choice] r)
         \<and> dict_fromkeys [''-Pn'', ''-sV'', ''-sC'', ''-p-'', ''-T4'']
             = [''-Pn'', ''-sV'', ''-sC'', ''-p-'', ''-T4'']
         \<and> distinct [''-Pn'', ''-sV'', ''-sC'', ''-p-'', ''-T4'']
         \<and> ((1 < length (argv w) \<and> argv w ! 1 \<noteq> [] \<and> typed w = line # rest)
              \<or> (length (argv w) \<le> 1 \<and> typed w = tline # line # rest \<and> strip tline \<noteq> [])
             \<longrightarrow> options_var (main w) = Some [''-Pn'', ''-sV'', ''-sC'', ''-p-'', ''-T4'']
                 \<and> (if choice = ''2'' then Warn_all_ports else Invalid_choice)
                     \<in> set (events (main w)))"
proof -
  let ?full = "[''-Pn'', ''-sV'', ''-sC'', ''-p-'', ''-T4'']"
  let ?ev = "if choice = ''2'' then Warn_all_ports else Invalid_choice"
  have bo: "build_options split choice r k = k ?full (say [?ev] r)" for r k split
    using nc by (auto simp: build_options_def)
  have di: "distinct ?full" by simp
  have df: "dict_fromkeys ?full = ?full" by (rule dict_fromkeys_distinct[OF di])
  have run: "options_var (main w) = Some ?full \<and> ?ev \<in> set (events (main w))"
    if m: "main w = scan_and_report w target ?full ((say [?ev] r0)\<lparr>options_var := Some ?full\<rparr>)"
    for target r0
  proof -
    obtain es where "events (main w) = events ((say [?ev] r0)\<lparr>options_var := Some ?full\<rparr>) @ es"
      using scan_and_report_events[of w target ?full] m by metis
    then have "?ev \<in> set (events (main w))" by (simp add: say_def)
    moreover have "options_var (main w) = Some ?full"
      using m scan_and_report_frame[of w target ?full] by simp
    ultimately show ?thesis by simp
  qed
  have a: "options_var (main w) = Some ?full \<and> ?ev \<in> set (events (main w))"
    if h: "1 < length (argv w)" "argv w ! 1 \<noteq> []" "typed w = line # rest"
  proof (rule run)
    let ?r1 = "(say [Banner] (start w))\<lparr>target_var := Some (argv w ! 1)\<rparr>"
    let ?r2 = "(say [Ask_choice] (say [Menu] ?r1))\<lparr>pending := rest\<rparr>"
    have p: "pending (say [Menu] ?r1) = line # rest"
      using h(3) by (simp add: say_def start_def)
    show "main w = scan_and_report w (argv w ! 1) ?full
            ((say [?ev] ?r2)\<lparr>options_var := Some ?full\<rparr>)"
      unfolding main_def get_target_def using h(1,2) p
      by (simp add: ask_def Let_def c[symmetric] bo df del: One_nat_def)
  qed
  have b: "options_var (main w) = Some ?full \<and> ?ev \<in> set (events (main w))"
    if h: "length (argv w) \<le> 1" "typed w = tline # line # rest" "strip tline \<noteq> []"
  proof (rule run)
    let ?r0 = "(say [Ask_target] (say [Banner] (start w)))\<lparr>pending := line # rest\<rparr>"
    let ?r1 = "?r0\<lparr>target_var := Some (strip tline)\<rparr>"
    let ?r2 = "(say [Ask_choice] (say [Menu] ?r1))\<lparr>pending := rest\<rparr>"
    have p0: "pending (say [Banner] (start w)) = tline # line # rest"
      using h(2) by (simp add: say_def start_def)
    have p: "pending (say [Menu] ?r1) = line # rest"
      by (simp add: say_def)
    have na: "\<not> 1 < length (argv w)" using h(1) by simp
    show "main w = scan_and_report w (strip tline) ?full
            ((say [?ev] ?r2)\<lparr>options_var := Some ?full\<rparr>)"
      unfolding main_def get_target_def using na h(3) p0 p
      by (simp add: ask_def Let_def c[symmetric] bo df del: One_nat_def)
  qed
  show ?thesis using bo[of split r k] di df a b by blast
qed

theorem full_scan_options_witness:
  "options_var (main w_open) = Some [''-Pn'', ''-sV'', ''-sC'', ''-p-'', ''-T4'']
   \<and> Warn_all_ports \<in> set (events (main w_open))
   \<and> options_var (main w_timeout) = Some [''-Pn'', ''-sV'', ''-sC'', ''-p-'', ''-T4'']
   \<and> Invalid_choice \<in> set (events (main w_timeout))"
proof -
  have o: "1 < length (argv w_open) \<and> argv w_open ! 1 \<noteq> [] \<and> typed w_open = [] # []"
    by (simp add: w_open_def world_of_def)
  have oc: "''2'' = (if strip [] = [] then ''2'' else strip [])" by (simp add: strip_def)
  have on: "''2'' \<notin> {''1'', ''3'', ''4'', ''5''}" by simp
  have a: "options_var (main w_open) = Some [''-Pn'', ''-sV'', ''-sC'', ''-p-'', ''-T4'']
           \<and> Warn_all_ports \<in> set (events (main w_open))"
    using full_scan_options[OF oc on, of _ _ _ w_open "[]"] o by simp
  have t: "1 < length (argv w_timeout) \<and> argv w_timeout ! 1 \<noteq> []
           \<and> typed w_timeout = ''9'' # [''y'']"
    by (simp add: w_timeout_def world_of_def)
  have s9: "strip ''9'' = ''9''" by code_simp
  have tc: "''9'' = (if strip ''9'' = [] then ''2'' else strip ''9'')" by (simp add: s9)
  have tn: "''9'' \<notin> {''1'', ''3'', ''4'', ''5''}" by simp
  have b: "options_var (main w_timeout) = Some [''-Pn'', ''-sV'', ''-sC'', ''-p-'', ''-T4'']
           \<and> Invalid_choice \<in> set (events (main w_timeout))"
    using full_scan_options[OF tc tn, of _ _ _ w_timeout "[''y'']"] t by simp
  from a b show ?thesis by blast
qed

text \<open>
  Claim C7. In every run the final value of \<open>options\<close>, where there is one, contains \<open>-Pn\<close>
  (and has no duplicate). The option-building step gives, for custom flags: the fallback
  \<open>-Pn -sV -sC\<close>, with no timing flag, on an empty input; the tokens with \<open>-Pn\<close> put in
  front where they lack it; the tokens as they are where they hold it; and no list at all
  where the tokenizer raises \<open>ValueError\<close>, which ends the run. For the modes 1 to 4 it gives
  the lists of the source, each starting with \<open>-Pn\<close>.
\<close>

theorem skip_discovery_always:
  "(options_var (main w) = Some options \<longrightarrow> ''-Pn'' \<in> set options \<and> distinct options)
   \<and> (pending r = line # rest \<and> strip line = []
      \<longrightarrow> build_options split ''5'' r k
            = k [''-Pn'', ''-sV'', ''-sC''] ((say [Custom_hint, Ask_flags] r)\<lparr>pending := rest\<rparr>))
   \<and> (pending r = line # rest \<and> strip line \<noteq> [] \<and> split (strip line) = Inr flags
        \<and> ''-Pn'' \<notin> set flags
      \<longrightarrow> build_options split ''5'' r k
            = k (''-Pn'' # flags) ((say [Custom_hint, Ask_flags] r)\<lparr>pending := rest\<rparr>))
   \<and> (pending r = line # rest \<and> strip line \<noteq> [] \<and> split (strip line) = Inr flags
        \<and> ''-Pn'' \<in> set flags
      \<longrightarrow> build_options split ''5'' r k
            = k flags ((say [Custom_hint, Ask_flags] r)\<lparr>pending := rest\<rparr>))
   \<and> (pending r = line # rest \<and> strip line \<noteq> [] \<and> split (strip line) = Inl msg
      \<longrightarrow> build_options split ''5'' r k
            = (say [Custom_hint, Ask_flags] r)
                \<lparr>pending := rest, ending := Raised (ValueError msg)\<rparr>)
   \<and> build_options split ''1'' r k = k [''-Pn'', ''-sV'', ''-sC'', ''-T4''] r
   \<and> build_options split ''2'' r k
       = k [''-Pn'', ''-sV'', ''-sC'', ''-p-'', ''-T4''] (say [Warn_all_ports] r)
   \<and> build_options split ''3'' r k = k [''-Pn'', ''-A'', ''-T4''] r
   \<and> (pending r = line # rest
      \<longrightarrow> build_options split ''4'' r k
            = k [''-Pn'', ''-sV'', ''-sC'',
                 ''-p'' @ (if strip line = [] then ''1-10000'' else strip line), ''-T4'']
                ((say [Ask_ports] r)\<lparr>pending := rest\<rparr>))"
proof -
  have 1: "''-Pn'' \<in> set options \<and> distinct options" if "options_var (main w) = Some options"
  proof -
    from main_shape[of w] that obtain t opts r where
      b: "before_scan w t opts r" and m: "main w = scan_and_report w t opts r"
      by (auto simp: stopped_early_def scanned_def)
    have "options_var (main w) = Some opts"
      using m b scan_and_report_frame[of w t opts r] by (simp add: before_scan_def)
    then show ?thesis using that b by (simp add: before_scan_def)
  qed
  have 2: "pending r = line # rest \<and> strip line = []
      \<longrightarrow> build_options split ''5'' r k
            = k [''-Pn'', ''-sV'', ''-sC''] ((say [Custom_hint, Ask_flags] r)\<lparr>pending := rest\<rparr>)"
    by (simp add: build_options_def ask_def say_def Let_def)
  have 3: "pending r = line # rest \<and> strip line \<noteq> [] \<and> split (strip line) = Inr flags
        \<and> ''-Pn'' \<notin> set flags
      \<longrightarrow> build_options split ''5'' r k
            = k (''-Pn'' # flags) ((say [Custom_hint, Ask_flags] r)\<lparr>pending := rest\<rparr>)"
    by (simp add: build_options_def ask_def say_def Let_def)
  have 4: "pending r = line # rest \<and> strip line \<noteq> [] \<and> split (strip line) = Inr flags
        \<and> ''-Pn'' \<in> set flags
      \<longrightarrow> build_options split ''5'' r k
            = k flags ((say [Custom_hint, Ask_flags] r)\<lparr>pending := rest\<rparr>)"
    by (simp add: build_options_def ask_def say_def Let_def)
  have 5: "pending r = line # rest \<and> strip line \<noteq> [] \<and> split (strip line) = Inl msg
      \<longrightarrow> build_options split ''5'' r k
            = (say [Custom_hint, Ask_flags] r)
                \<lparr>pending := rest, ending := Raised (ValueError msg)\<rparr>"
    by (simp add: build_options_def ask_def say_def Let_def)
  have 6: "build_options split ''1'' r k = k [''-Pn'', ''-sV'', ''-sC'', ''-T4''] r"
    "build_options split ''2'' r k
       = k [''-Pn'', ''-sV'', ''-sC'', ''-p-'', ''-T4''] (say [Warn_all_ports] r)"
    "build_options split ''3'' r k = k [''-Pn'', ''-A'', ''-T4''] r"
    by (simp_all add: build_options_def)
  have 7: "pending r = line # rest
      \<longrightarrow> build_options split ''4'' r k
            = k [''-Pn'', ''-sV'', ''-sC'',
                 ''-p'' @ (if strip line = [] then ''1-10000'' else strip line), ''-T4'']
                ((say [Ask_ports] r)\<lparr>pending := rest\<rparr>)"
    by (simp add: build_options_def ask_def say_def Let_def)
  from 1 2 3 4 5 6 7 show ?thesis by blast
qed

theorem skip_discovery_always_witness:
  "options_var (main w_custom) = Some [''-Pn'', ''-sS'', ''-p80'']
   \<and> ''-Pn'' \<in> set [''-Pn'', ''-sS'', ''-p80''] \<and> distinct [''-Pn'', ''-sS'', ''-p80'']
   \<and> options_var
        (build_options (\<lambda>s. Inr [''-sS'', ''-p80'']) ''5''
           ((start w_custom)\<lparr>pending := [''-sS -p80'']\<rparr>)
           (\<lambda>options r. r\<lparr>options_var := Some options\<rparr>))
       = Some [''-Pn'', ''-sS'', ''-p80'']
   \<and> options_var
        (build_options (\<lambda>s. Inr [''-sS'', ''-p80'']) ''5''
           ((start w_custom)\<lparr>pending := ['' '']\<rparr>)
           (\<lambda>options r. r\<lparr>options_var := Some options\<rparr>))
       = Some [''-Pn'', ''-sV'', ''-sC'']"
proof -
  note t = skip_discovery_always
  have a: "options_var (main w_custom) = Some [''-Pn'', ''-sS'', ''-p80'']" by code_simp
  have a': "''-Pn'' \<in> set [''-Pn'', ''-sS'', ''-p80''] \<and> distinct [''-Pn'', ''-sS'', ''-p80'']"
    using t[of w_custom "[''-Pn'', ''-sS'', ''-p80'']"] a by blast
  have p2: "strip ''-sS -p80'' \<noteq> []" by code_simp
  have c: "options_var
        (build_options (\<lambda>s. Inr [''-sS'', ''-p80'']) ''5''
           ((start w_custom)\<lparr>pending := [''-sS -p80'']\<rparr>)
           (\<lambda>options r. r\<lparr>options_var := Some options\<rparr>))
       = Some [''-Pn'', ''-sS'', ''-p80'']"
    using t[of _ _ "(start w_custom)\<lparr>pending := [''-sS -p80'']\<rparr>" "''-sS -p80''" "[]"
              "\<lambda>s. Inr [''-sS'', ''-p80'']"
              "\<lambda>options r. r\<lparr>options_var := Some options\<rparr>" "[''-sS'', ''-p80'']"] p2
    by simp
  have p3: "strip '' '' = []" by code_simp
  have d: "options_var
        (build_options (\<lambda>s. Inr [''-sS'', ''-p80'']) ''5''
           ((start w_custom)\<lparr>pending := ['' '']\<rparr>)
           (\<lambda>options r. r\<lparr>options_var := Some options\<rparr>))
       = Some [''-Pn'', ''-sV'', ''-sC'']"
    using t[of _ _ "(start w_custom)\<lparr>pending := ['' '']\<rparr>" "'' ''" "[]"
              "\<lambda>s. Inr [''-sS'', ''-p80'']"
              "\<lambda>options r. r\<lparr>options_var := Some options\<rparr>"] p3
    by simp
  from a a' c d show ?thesis by blast
qed

text \<open>
  Claim C8. For every target, raw scan text and analysis text the report writer returns
  the file name \<open>analysis_\<close>, the target with each \<open>.\<close> and \<open>/\<close> replaced by \<open>_\<close>, \<open>.md\<close>, and
  the file of that name then holds, in this order: the heading \<open># CTF Enumeration: \<close> with
  the target, a rule, the analysis text as it is, a rule, the heading
  \<open>## Raw Nmap Scan\<close> and the raw scan text in a fenced block. For the target
  \<open>10.10.10.5\<close> the name is \<open>analysis_10_10_10_5.md\<close>.
\<close>

theorem save_results_writes:
  "save_results target (Some scan) analysis fs
     = (Inr (''analysis_''
              @ map (\<lambda>c. if c = CHR ''.'' \<or> c = CHR ''/'' then CHR ''_'' else c) target
              @ ''.md''),
        fs(''analysis_''
              @ map (\<lambda>c. if c = CHR ''.'' \<or> c = CHR ''/'' then CHR ''_'' else c) target
              @ ''.md''
           \<mapsto> ''# CTF Enumeration: '' @ target @ ''\<newline>\<newline>---\<newline>\<newline>''
               @ analysis
               @ ''\<newline>\<newline>---\<newline>\<newline>## Raw Nmap Scan\<newline>\<newline>```text\<newline>''
               @ scan @ ''\<newline>```\<newline>''))"
proof -
  have "replace CHR ''/'' CHR ''_'' (replace CHR ''.'' CHR ''_'' target)
          = map (\<lambda>c. if c = CHR ''.'' \<or> c = CHR ''/'' then CHR ''_'' else c) target"
    by (auto simp: replace_def)
  then show ?thesis by (simp add: save_results_def report_name_def Let_def)
qed

theorem save_results_writes_witness:
  "fst (save_results ''10.10.10.5'' (Some ''80/tcp open'') ''## Analysis'' Map.empty)
     = Inr ''analysis_10_10_10_5.md''
   \<and> snd (save_results ''10.10.10.5'' (Some ''80/tcp open'') ''## Analysis'' Map.empty)
        ''analysis_10_10_10_5.md''
     = Some ''# CTF Enumeration: 10.10.10.5\<newline>\<newline>---\<newline>\<newline>## Analysis\<newline>\<newline>---\<newline>\<newline>## Raw Nmap Scan\<newline>\<newline>```text\<newline>80/tcp open\<newline>```\<newline>''"
  using save_results_writes[of "''10.10.10.5''" "''80/tcp open''" "''## Analysis''" Map.empty]
  by simp

text \<open>
  Claim C9. The report writer is idempotent: a second call with the same target, scan text
  and analysis text, on the disk the first call left, returns the same file name and leaves
  the disk as it was; and the name returned and the content written do not depend on what
  the disk held before.
\<close>

theorem save_results_idempotent:
  "fst (save_results target (Some scan) analysis
         (snd (save_results target (Some scan) analysis fs)))
     = fst (save_results target (Some scan) analysis fs)
   \<and> snd (save_results target (Some scan) analysis
         (snd (save_results target (Some scan) analysis fs)))
     = snd (save_results target (Some scan) analysis fs)
   \<and> fst (save_results target (Some scan) analysis fs')
     = fst (save_results target (Some scan) analysis fs)
   \<and> snd (save_results target (Some scan) analysis fs') (report_name target)
     = snd (save_results target (Some scan) analysis fs) (report_name target)"
  by (simp add: save_results_def Let_def)

theorem save_results_idempotent_witness:
  "snd (save_results ''10.10.10.5'' (Some ''80/tcp open'') ''## Analysis''
         (snd (save_results ''10.10.10.5'' (Some ''80/tcp open'') ''## Analysis'' Map.empty)))
     = snd (save_results ''10.10.10.5'' (Some ''80/tcp open'') ''## Analysis'' Map.empty)
   \<and> fst (save_results ''10.10.10.5'' (Some ''80/tcp open'') ''## Analysis''
         (snd (save_results ''10.10.10.5'' (Some ''80/tcp open'') ''## Analysis'' Map.empty)))
     = Inr ''analysis_10_10_10_5.md''"
proof -
  have "report_name ''10.10.10.5'' = ''analysis_10_10_10_5.md''" by code_simp
  then have "fst (save_results ''10.10.10.5'' (Some ''80/tcp open'') ''## Analysis'' Map.empty)
          = Inr ''analysis_10_10_10_5.md''"
    by (simp add: save_results_def Let_def)
  then show ?thesis
    using save_results_idempotent[of "''10.10.10.5''" "''80/tcp open''" "''## Analysis''"
            Map.empty Map.empty]
    by simp
qed

text \<open>
  Claim C10. A report can be written after a scan classified as failed. In every run whose
  scan returned the raw text \<open>out\<close> with a failure reason and whose analysis text \<open>a\<close> does
  not start with \<open>Error:\<close>: the validator rejected \<open>out\<close> with that reason, the reason does
  not contain \<open>No open ports\<close>, the prompt to proceed was offered, and the run returns with
  the report written under the report's name, with \<open>out\<close> in its fenced block. The witness
  is such a run: the scanner exits with zero on a host that seems down and the user
  answers \<open>y\<close>.
\<close>

theorem report_after_failed_scan:
  assumes sv: "scan_var (main w) = Some (Some out, Some reason)"
    and av: "analysis_var (main w) = Some a"
    and ne: "\<not> startswith a ''Error:''"
    and tv: "target_var (main w) = Some target"
  shows "check_scan_results (Some out) = (False, reason)
         \<and> \<not> contains reason ''No open ports''
         \<and> Ask_proceed \<in> set (events (main w))
         \<and> filename_var (main w) = Some (report_name target)
         \<and> files (main w)
             = (disk w)(report_name target
                  \<mapsto> ''# CTF Enumeration: '' @ target @ ''\<newline>\<newline>---\<newline>\<newline>'' @ a
                      @ ''\<newline>\<newline>---\<newline>\<newline>## Raw Nmap Scan\<newline>\<newline>```text\<newline>''
                      @ out @ ''\<newline>```\<newline>'')
         \<and> ending (main w) = Returned"
proof -
  from main_shape[of w] sv obtain t opts r where
    b: "before_scan w t opts r" and m: "main w = scan_and_report w t opts r"
    by (auto simp: stopped_early_def scanned_def)
  have fr: "target_var (main w) = Some t"
    using m b scan_and_report_frame[of w t opts r] by (simp add: before_scan_def)
  have t: "t = target" using fr tv by simp
  have rn: "fst (run_nmap (markup_error w) (nmap w) t opts) = Inr (Some out, Some reason)"
    using sv m b scan_and_report_frame[of w t opts r]
    by (cases "fst (run_nmap (markup_error w) (nmap w) t opts)")
       (simp_all add: before_scan_def)
  note ft = run_nmap_failed_text[OF rn]
  have failed: "\<not> truthy (Some out) \<or> truthy (Some reason)"
    using ft by (simp add: truthy_def)
  have pr: "truthy (Some out) \<and> \<not> contains (py_str (Some reason)) ''No open ports''
            \<and> markup_error w (Scan_output (take 500 (py_str (Some out)))) = None"
  proof (rule ccontr)
    assume "\<not> ?thesis"
    then have "analysis_var (main w) = analysis_var r"
      using scan_and_report_no_analysis[OF rn failed, of r] m by simp
    then show False using av b by (simp add: before_scan_def)
  qed
  have np: "Ask_proceed \<notin> set (events r)" using b by (simp add: before_scan_def)
  have asked: "Ask_proceed \<in> set (events (main w))"
    using scan_and_report_prompt[OF np rn failed] pr m by simp
  let ?P = "\<lambda>r'. analysis_var r' = Some a
      \<longrightarrow> filename_var r' = Some (report_name t)
          \<and> files r' = snd (save_results t (Some out) a (disk w))
          \<and> ending r' = Returned"
  have "?P (scan_and_report w t opts r)"
  proof (rule scan_and_report_shape)
    fix r' :: run assume "analysis_var r' = analysis_var r"
    then show "?P r'" using b by (simp add: before_scan_def)
  next
    fix r' :: run and out' error
    assume o: "fst (run_nmap (markup_error w) (nmap w) t opts) = Inr (Some out', error)"
      and f: "files r' = files r" "ending r' = ending r"
    have oo: "out' = out" using o rn by simp
    show "?P (report w t (Some out') r')"
    proof
      assume "analysis_var (report w t (Some out') r') = Some a"
      then have a: "fst (analyze_scan (ollama w) (Some out) t) = a"
        by (simp add: report_analysis oo)
      show "filename_var (report w t (Some out') r') = Some (report_name t)
            \<and> files (report w t (Some out') r') = snd (save_results t (Some out) a (disk w))
            \<and> ending (report w t (Some out') r') = Returned"
        using report_written[of w out t r'] ne a f b oo
        by (simp add: before_scan_def)
    qed
  qed
  then have w: "filename_var (main w) = Some (report_name t)
      \<and> files (main w) = snd (save_results t (Some out) a (disk w))
      \<and> ending (main w) = Returned"
    using m av by simp
  have "snd (save_results t (Some out) a (disk w))
          = (disk w)(report_name t
                  \<mapsto> ''# CTF Enumeration: '' @ t @ ''\<newline>\<newline>---\<newline>\<newline>'' @ a
                      @ ''\<newline>\<newline>---\<newline>\<newline>## Raw Nmap Scan\<newline>\<newline>```text\<newline>''
                      @ out @ ''\<newline>```\<newline>'')"
    by (simp add: save_results_def Let_def)
  then show ?thesis using w asked pr ft t by (simp add: py_str_def)
qed

theorem report_after_failed_scan_witness:
  "nmap w_down [''nmap'', ''-Pn'', ''-sV'', ''-sC'', ''-T4'', ''10.10.10.5'']
     = Completed 0 sample_down []
   \<and> sample_down \<noteq> []
   \<and> typed w_down = [''1'', ''y'']
   \<and> check_scan_results (Some sample_down) = (False, ''Host appears down (try -Pn flag)'')
   \<and> \<not> contains ''Host appears down (try -Pn flag)'' ''No open ports''
   \<and> Ask_proceed \<in> set (events (main w_down))
   \<and> analysis_var (main w_down) = Some ''## Host down''
   \<and> \<not> startswith ''## Host down'' ''Error:''
   \<and> filename_var (main w_down) = Some ''analysis_10_10_10_5.md''
   \<and> files (main w_down) ''analysis_10_10_10_5.md''
       = Some (''# CTF Enumeration: 10.10.10.5\<newline>\<newline>---\<newline>\<newline>## Host down''
               @ ''\<newline>\<newline>---\<newline>\<newline>## Raw Nmap Scan\<newline>\<newline>```text\<newline>''
               @ sample_down @ ''\<newline>```\<newline>'')
   \<and> ending (main w_down) = Returned"
proof -
  have i: "nmap w_down [''nmap'', ''-Pn'', ''-sV'', ''-sC'', ''-T4'', ''10.10.10.5'']
             = Completed 0 sample_down []"
    "typed w_down = [''1'', ''y'']"
    by (simp_all add: w_down_def world_of_def)
  have s: "sample_down \<noteq> []" by code_simp
  have sv: "scan_var (main w_down)
              = Some (Some sample_down, Some ''Host appears down (try -Pn flag)'')"
    by code_simp
  have av: "analysis_var (main w_down) = Some ''## Host down''" by code_simp
  have ne: "\<not> startswith ''## Host down'' ''Error:''" by code_simp
  have tv: "target_var (main w_down) = Some ''10.10.10.5''" by code_simp
  have rn: "report_name ''10.10.10.5'' = ''analysis_10_10_10_5.md''" by code_simp
  note t = report_after_failed_scan[OF sv av ne tv]
  from t have f: "files (main w_down) ''analysis_10_10_10_5.md''
       = Some (''# CTF Enumeration: 10.10.10.5\<newline>\<newline>---\<newline>\<newline>## Host down''
               @ ''\<newline>\<newline>---\<newline>\<newline>## Raw Nmap Scan\<newline>\<newline>```text\<newline>''
               @ sample_down @ ''\<newline>```\<newline>'')"
    unfolding rn by simp
  from t i s av ne f show ?thesis unfolding rn by simp
qed

section \<open>Further properties\<close>

text \<open>
  How a run can end: \<open>main\<close> returns, or \<open>console.input\<close> finds no line left
  (\<open>EOFError\<close>), or the tokenizer rejects the custom flags (\<open>ValueError\<close>), or a print of the
  scanner's text raises \<open>MarkupError\<close>. The report writer is never given \<open>None\<close> for the
  scan text, so its \<open>TypeError\<close> does not occur.
\<close>

theorem main_endings:
  "ending (main w) = Returned \<or> ending (main w) = Raised EOFError
   \<or> (\<exists>msg. ending (main w) = Raised (ValueError msg))
   \<or> (\<exists>msg. ending (main w) = Raised (MarkupError msg))"
proof -
  have nt: "ending (main w) \<noteq> Raised TypeError"
    using main_shape[of w]
  proof
    assume "stopped_early w (main w)"
    then show ?thesis by (simp add: stopped_early_def)
  next
    assume "scanned w (main w)"
    then obtain t opts r where
      b: "before_scan w t opts r" and m: "main w = scan_and_report w t opts r"
      by (auto simp: scanned_def)
    have e: "ending r = Returned" using b by (simp add: before_scan_def)
    have "ending (scan_and_report w t opts r) \<noteq> Raised TypeError"
    proof (rule scan_and_report_shape)
      fix r' :: run
      assume "ending r' = ending r \<or> ending r' = Raised EOFError
              \<or> (\<exists>m. ending r' = Raised (MarkupError m))"
      then show "ending r' \<noteq> Raised TypeError" using e by auto
    next
      fix r' :: run and out error
      assume f: "ending r' = ending r"
      show "ending (report w t (Some out) r') \<noteq> Raised TypeError"
      proof (cases "startswith (fst (analyze_scan (ollama w) (Some out) t)) ''Error:''")
        case True
        then show ?thesis using report_error[of w "Some out" t r'] f e by simp
      next
        case False
        then show ?thesis using report_written[of w out t r'] f e by simp
      qed
    qed
    then show ?thesis using m by simp
  qed
  show ?thesis
  proof (cases "ending (main w)")
    case Returned
    then show ?thesis by simp
  next
    case (Raised x)
    then show ?thesis using nt by (cases x) simp_all
  qed
qed

theorem main_endings_witness:
  "ending (main w_open) = Returned
   \<and> ending (main (world_of [] Timeout_expired (Request_error []))) = Raised EOFError"
proof -
  have a: "ending (main w_open) = Returned" by code_simp
  have b: "ending (main (world_of [] Timeout_expired (Request_error []))) = Raised EOFError"
    by code_simp
  show ?thesis
    using main_endings[of w_open] main_endings[of "world_of [] Timeout_expired (Request_error [])"]
      a b
    by simp
qed

text \<open>
  The removal of duplicates, \<open>list(dict.fromkeys(options))\<close>: the result has no duplicate
  and the same elements, a list without duplicates is left as it is, and each element
  stays at its first occurrence, the later ones being dropped.
\<close>

theorem dict_fromkeys_first_occurrences:
  "distinct (dict_fromkeys xs) \<and> set (dict_fromkeys xs) = set xs
   \<and> (distinct xs \<longrightarrow> dict_fromkeys xs = xs)
   \<and> dict_fromkeys [] = []
   \<and> dict_fromkeys (x # xs) = x # dict_fromkeys (removeAll x xs)"
proof -
  have "filter (\<lambda>y. y \<notin> set [x]) xs = removeAll x xs"
    by (induction xs) auto
  then have "dict_fromkeys (x # xs) = x # dict_fromkeys (removeAll x xs)"
    using fromkeys_filter[of "[x]" xs] by (simp add: dict_fromkeys_def)
  then show ?thesis
    using distinct_dict_fromkeys[of xs] set_dict_fromkeys[of xs] dict_fromkeys_distinct[of xs]
    by (simp add: dict_fromkeys_def)
qed

theorem dict_fromkeys_first_occurrences_witness:
  "dict_fromkeys [''-sV'', ''-Pn'', ''-sV'', ''-T4'', ''-Pn''] = [''-sV'', ''-Pn'', ''-T4'']
   \<and> dict_fromkeys [''-Pn'', ''-sV''] = [''-Pn'', ''-sV'']"
proof -
  have a: "dict_fromkeys [''-sV'', ''-Pn'', ''-sV'', ''-T4'', ''-Pn''] = [''-sV'', ''-Pn'', ''-T4'']"
    by code_simp
  have "distinct [''-Pn'', ''-sV'']" by simp
  then have "dict_fromkeys [''-Pn'', ''-sV''] = [''-Pn'', ''-sV'']"
    using dict_fromkeys_first_occurrences[of "[''-Pn'', ''-sV'']"] by blast
  then show ?thesis using a by simp
qed

text \<open>
  The print of line 202 before the prompt: the scan output of \<open>w_admin\<close> holds
  \<open>[/admin]\<close>, the validator's reason is \<open>No ports detected in scan output\<close>, and the run
  ends with \<open>MarkupError\<close> before any prompt or analysis.
\<close>

lemma scan_output_markup_error:
  "scan_var (main w_admin) = Some (Some sample_admin, Some ''No ports detected in scan output'')
   \<and> \<not> contains ''No ports detected in scan output'' ''No open ports''
   \<and> Ask_proceed \<notin> set (events (main w_admin))
   \<and> analysis_var (main w_admin) = None
   \<and> ending (main w_admin)
       = Raised (MarkupError ''closing tag '[/admin]' at position 69 doesn't match any open tag'')"
  by code_simp

end
